theory Spec2Isabelle
  imports Complex_Main "HOL-Library.AList" "HOL-Library.Log_Nat"
begin

section \<open>Numbers\<close>

text \<open>
  The program computes with Python floats and numpy float64 arrays.

  The composition-sweep planner, the calibration and the study runner are modelled in
  exact reals: \<open>+\<close>, \<open>-\<close>, \<open>*\<close>, \<open>/\<close> and the comparisons are the exact ones, and
  what is stated of them is stated of the algorithm in exact arithmetic.

  The gas system compares sums of floats with \<^verbatim>\<open>==\<close> and \<^verbatim>\<open>!=\<close>, so there every sum,
  product and quotient is rounded as the machine rounds it: \<open>fl x\<close> is the binary64 number
  nearest to \<open>x\<close>, a tie going to the even mantissa. The range of the exponent is not
  bounded in \<open>fl\<close>: the numbers beyond about \<open>1e308\<close>, and below about \<open>1e-308\<close>, in
  magnitude, which no gas composition reaches, are rounded as if binary64 went on.
\<close>

text \<open>\<open>2\<close> to an integer power.\<close>

definition pow2 :: "int \<Rightarrow> real" where
  "pow2 k = (if 0 \<le> k then 2 ^ nat k else 1 / 2 ^ nat (- k))"

text \<open>
  The binary exponent of a positive number \<open>a\<close>: the \<open>e\<close> with
  \<open>2 ^ e \<le> a < 2 ^ (e + 1)\<close>, from the bit length of an integer.
\<close>

definition ilog2 :: "real \<Rightarrow> int" where
  "ilog2 a = (if 1 \<le> a then int (floorlog 2 (nat \<lfloor>a\<rfloor>)) - 1
              else - int (floorlog 2 (nat (\<lceil>1 / a\<rceil> - 1))))"

text \<open>The nearest integer, a tie going to the even one.\<close>

definition round_even :: "real \<Rightarrow> int" where
  "round_even x =
     (let f = \<lfloor>x\<rfloor>; d = x - of_int f
      in if d < 1 / 2 then f else if d > 1 / 2 then f + 1 else if even f then f else f + 1)"

text \<open>The mantissa of binary64 has 53 bits: \<open>\<bar>x\<bar>\<close> is scaled into \<open>[2 ^ 52, 2 ^ 53)\<close>.\<close>

definition fl :: "real \<Rightarrow> real" where
  "fl x = (if x = 0 then 0
           else let a = \<bar>x\<bar>; e = ilog2 a; m = round_even (a * pow2 (52 - e))
                in sgn x * (of_int m * pow2 (e - 52)))"

text \<open>
  Python's \<^verbatim>\<open>sum(xs)\<close>: the elements are added from the left, starting from 0, every
  sum rounded. This is the sum of CPython up to version 3.11, the interpreters the
  program was written for (from 3.12 on, \<^verbatim>\<open>sum\<close> compensates the rounding errors of a
  list of floats).
\<close>

definition py_sum :: "real list \<Rightarrow> real" where
  "py_sum xs = foldl (\<lambda>acc x. fl (acc + x)) 0 xs"

section \<open>numpy\<close>

text \<open>
  \<^verbatim>\<open>np.arange(start, stop, step)\<close>: numpy computes the length
  \<open>ceil((stop - start) / step)\<close> (none when that is not positive) and the values
  \<open>start + i * step\<close>.
\<close>

definition arange :: "real \<Rightarrow> real \<Rightarrow> real \<Rightarrow> real list" where
  "arange start stop step =
     map (\<lambda>i. start + real i * step) [0..<nat \<lceil>(stop - start) / step\<rceil>]"

section \<open>The composition-sweep planner: \<open>MainWindow.update_ind_var\<close>\<close>

text \<open>
  The combo box of a gas row offers
  \<^verbatim>\<open>['-', 'Fixed', 'Fill', 'Ind. Variable', 'Multiple']\<close>.
\<close>

datatype role = Unset | Fixed | Fill | Ind_Variable | Multiple

text \<open>
  One gas row of \<^verbatim>\<open>comp_sweep_widgets\<close>: column 1 is the multiplier spin box, column 2
  the combo box, columns 3, 4 and 5 the start, stop and step spin boxes. Row 0 of the
  grid holds the labels; the list of gas rows below starts at the grid's row 1, so the
  index \<open>i\<close> here is the source's \<open>i - 1\<close>.
\<close>

record grid_row =
  col_multiplier :: real
  col_status :: role
  col_start :: real
  col_stop :: real
  col_step :: real

record gui =
  comp_sweep_widgets :: "grid_row list"
  IndVar_start :: real
  IndVar_stop :: real
  IndVar_step :: real

text \<open>
  The value stored by \<^verbatim>\<open>setattr(expt, expt.ind_var, ...)\<close>: a composition matrix (one
  row per sweep index) for a composition sweep, a plain list for the other sweeps.
\<close>

datatype swept = Not_set | Vec "real list" | Matrix "real list list"

record Experiment =
  expt_type :: string
  ind_var_value :: swept

text \<open>
  How \<^verbatim>\<open>update_ind_var\<close> leaves: the exit taken (the source returns \<open>None\<close> or
  \<open>False\<close> and clears or redraws the plot).
\<close>

datatype plan_outcome =
    Not_ready
  | Bad_role_count
  | Invalid_range
  | Composition_overflow
  | No_condition
  | Updated

text \<open>\<^verbatim>\<open>np.where(row_types == r)[0].tolist()\<close>\<close>

definition np_where :: "role list \<Rightarrow> role \<Rightarrow> nat list" where
  "np_where row_types r = filter (\<lambda>i. row_types ! i = r) [0..<length row_types]"

text \<open>
  The body of the loop over the \<^verbatim>\<open>'Ind. Variable'\<close> rows up to the division by 100:
  \<open>None\<close> is the \<^verbatim>\<open>return False\<close>.
\<close>

definition ind_var_of :: "grid_row \<Rightarrow> real list option" where
  "ind_var_of row =
     (let start = col_start row;
          stop = col_stop row + 1;
          step = col_step row
      in if stop > start \<and> step > 0
         then Some (map (\<lambda>x. x / 100) (arange start stop step))
         else None)"

text \<open>The loops over the \<^verbatim>\<open>'Multiple'\<close>, \<^verbatim>\<open>'Fixed'\<close> and \<^verbatim>\<open>'Fill'\<close> rows.\<close>

fun multiple_loop ::
  "grid_row list \<Rightarrow> real list \<Rightarrow> nat list \<Rightarrow> real list list \<times> real list
    \<Rightarrow> real list list \<times> real list" where
  "multiple_loop rows ind_var [] (comp_list, fill_vals) = (comp_list, fill_vals)"
| "multiple_loop rows ind_var (i # is) (comp_list, fill_vals) =
     (let comp_vals = map (\<lambda>x. x * col_multiplier (rows ! i)) ind_var
      in multiple_loop rows ind_var is
           (comp_list[i := comp_vals], map2 (-) fill_vals comp_vals))"

fun fixed_loop ::
  "grid_row list \<Rightarrow> real list \<Rightarrow> nat list \<Rightarrow> real list list \<times> real list
    \<Rightarrow> real list list \<times> real list" where
  "fixed_loop rows ind_var [] (comp_list, fill_vals) = (comp_list, fill_vals)"
| "fixed_loop rows ind_var (i # is) (comp_list, fill_vals) =
     (let comp_vals = map (\<lambda>x. x * col_start (rows ! i)) (replicate (length ind_var) 1);
          comp_vals = map (\<lambda>x. x / 100) comp_vals
      in fixed_loop rows ind_var is
           (comp_list[i := comp_vals], map2 (-) fill_vals comp_vals))"

fun fill_loop :: "real list \<Rightarrow> nat list \<Rightarrow> real list list \<Rightarrow> real list list" where
  "fill_loop fill_vals [] comp_list = comp_list"
| "fill_loop fill_vals (i # is) comp_list = fill_loop fill_vals is (comp_list[i := fill_vals])"

text \<open>
  \<^verbatim>\<open>np.array(comp_list).T.tolist()\<close> on columns of one length: row \<open>j\<close> holds entry
  \<open>j\<close> of every column.
\<close>

definition np_transpose :: "real list list \<Rightarrow> real list list" where
  "np_transpose cols =
     (case cols of [] \<Rightarrow> []
      | c # _ \<Rightarrow> map (\<lambda>j. map (\<lambda>col. col ! j) cols) [0..<length c])"

text \<open>
  Lines 757 to 808: the rejections and the columns, with the fill vector. The columns
  start as \<^verbatim>\<open>[[]] * (num_rows - 1)\<close>.
\<close>

definition build_columns :: "grid_row list \<Rightarrow> plan_outcome + real list list \<times> real list" where
  "build_columns rows =
     (let row_types = map col_status rows;
          comp_list = replicate (length rows) []
      in if Unset \<in> set row_types then Inl Not_ready
         else if count_list row_types Fill \<noteq> 1 \<or> count_list row_types Ind_Variable \<noteq> 1
         then Inl Bad_role_count
         else
           let ind_var_row = hd (np_where row_types Ind_Variable)
           in case ind_var_of (rows ! ind_var_row) of
                None \<Rightarrow> Inl Invalid_range
              | Some ind_var \<Rightarrow>
                  let comp_list = comp_list[ind_var_row := ind_var];
                      fill_vals = map (\<lambda>x. 1 - x) ind_var;
                      (comp_list, fill_vals) =
                         multiple_loop rows ind_var (np_where row_types Multiple)
                           (comp_list, fill_vals);
                      (comp_list, fill_vals) =
                         fixed_loop rows ind_var (np_where row_types Fixed)
                           (comp_list, fill_vals);
                      comp_list = fill_loop fill_vals (np_where row_types Fill) comp_list
                  in Inr (comp_list, fill_vals))"

text \<open>
  The whole method. The first branch is the composition sweep: the check of the fill
  vector (lines 810 to 812), the transposition and the \<^verbatim>\<open>setattr\<close>.
\<close>

definition update_ind_var :: "gui \<Rightarrow> Experiment \<Rightarrow> plan_outcome \<times> Experiment" where
  "update_ind_var g expt =
     (if expt_type expt \<in> set [''comp_sweep'', ''calibration''] then
        (case build_columns (comp_sweep_widgets g) of
           Inl out \<Rightarrow> (out, expt)
         | Inr (comp_list, fill_vals) \<Rightarrow>
             if list_ex (\<lambda>x. x < 0) fill_vals then (Composition_overflow, expt)
             else (Updated, expt\<lparr>ind_var_value := Matrix (np_transpose comp_list)\<rparr>))
      else if IndVar_stop g > IndVar_start g \<and> IndVar_step g > 0
              \<and> expt_type expt \<noteq> ''stability_test''
      then (Updated,
            expt\<lparr>ind_var_value :=
                   Vec (arange (IndVar_start g) (IndVar_stop g + 1) (IndVar_step g))\<rparr>)
      else if expt_type expt = ''stability_test'' then (Updated, expt)
      else (No_condition, expt))"


subsection \<open>A concrete grid\<close>

text \<open>
  Gas 1 is swept from 0 to 10 percent in steps of 5, gas 2 is twice gas 1, gas 3 is
  fixed at 10 percent and gas 4 fills.
\<close>

definition example_rows :: "grid_row list" where
  "example_rows =
     [\<lparr>col_multiplier = 0, col_status = Ind_Variable, col_start = 0, col_stop = 10, col_step = 5\<rparr>,
      \<lparr>col_multiplier = 2, col_status = Multiple, col_start = 0, col_stop = 0, col_step = 0\<rparr>,
      \<lparr>col_multiplier = 0, col_status = Fixed, col_start = 10, col_stop = 0, col_step = 0\<rparr>,
      \<lparr>col_multiplier = 0, col_status = Fill, col_start = 0, col_stop = 0, col_step = 0\<rparr>]"

definition example_gui :: "grid_row list \<Rightarrow> gui" where
  "example_gui rows =
     \<lparr>comp_sweep_widgets = rows, IndVar_start = 0, IndVar_stop = 0, IndVar_step = 0\<rparr>"

definition example_expt :: Experiment where
  "example_expt = \<lparr>expt_type = ''comp_sweep'', ind_var_value = Not_set\<rparr>"

text \<open>Gas 3 fixed at 95 percent: the fill goes negative at the last sweep index.\<close>

definition example_overflow_rows :: "grid_row list" where
  "example_overflow_rows =
     [\<lparr>col_multiplier = 0, col_status = Ind_Variable, col_start = 0, col_stop = 10, col_step = 5\<rparr>,
      \<lparr>col_multiplier = 0, col_status = Fixed, col_start = 0, col_stop = 0, col_step = 0\<rparr>,
      \<lparr>col_multiplier = 0, col_status = Fixed, col_start = 95, col_stop = 0, col_step = 0\<rparr>,
      \<lparr>col_multiplier = 0, col_status = Fill, col_start = 0, col_stop = 0, col_step = 0\<rparr>]"

text \<open>A sweep of gas 1 with the given start, stop and step; gas 2 fills.\<close>

definition example_sweep_rows :: "real \<Rightarrow> real \<Rightarrow> real \<Rightarrow> grid_row list" where
  "example_sweep_rows start stop step =
     [\<lparr>col_multiplier = 0, col_status = Ind_Variable, col_start = start, col_stop = stop,
       col_step = step\<rparr>,
      \<lparr>col_multiplier = 0, col_status = Fill, col_start = 0, col_stop = 0, col_step = 0\<rparr>,
      \<lparr>col_multiplier = 0, col_status = Fixed, col_start = 0, col_stop = 0, col_step = 0\<rparr>,
      \<lparr>col_multiplier = 0, col_status = Fixed, col_start = 0, col_stop = 0, col_step = 0\<rparr>]"

section \<open>The gas system: \<open>Gas_System\<close>\<close>

text \<open>
  The five devices: the flow controllers \<open>mfc_A\<close> to \<open>mfc_D\<close> and the flow meter
  \<open>mfc_E\<close>.
\<close>

datatype channel = MFC_A | MFC_B | MFC_C | MFC_D | MFC_E

text \<open>
  What \<^verbatim>\<open>set_gas\<close> takes and \<^verbatim>\<open>get()['gas']\<close> reports: the name of a gas, or the number
  of a custom mixture.
\<close>

datatype gas_sel = Gas string | Mix nat

text \<open>The calls the class makes on the devices (the \<^verbatim>\<open>alicat\<close> package).\<close>

datatype command =
    Set_gas channel gas_sel
  | Set_flow_rate channel real
  | Create_mix channel nat string "(gas_sel \<times> real) list"
  | Get channel
  | Close channel

datatype py_error = AttributeError | IndexError | DeviceError

text \<open>
  How a method ends: it returns, it raises, or it never leaves
  \<^verbatim>\<open>while self.is_busy: time.sleep(0)\<close>. The model is sequential: nothing else clears the
  flag while a method waits.
\<close>

datatype 'a outcome = Returns 'a | Raises py_error | Hangs

text \<open>
  The state: what the devices hold (the gas and the setpoint of each channel, the custom
  mixtures of each device), the flag \<^verbatim>\<open>is_busy\<close>, the Python lists that callers pass by
  reference, and the calls made so far, each with the value \<^verbatim>\<open>is_busy\<close> had when it was
  made (the newest last). The package \<^verbatim>\<open>alicat\<close> is not part of the program:
  \<open>dev_fails\<close> says which calls raise in it (an unsupported gas, a failed transfer), and a
  call that does not raise has the effect \<open>dev_effect\<close>.
\<close>

type_synonym ref = nat

record Gas_System =
  gas :: "channel \<Rightarrow> gas_sel"
  setpoint :: "channel \<Rightarrow> real"
  mixes :: "channel \<Rightarrow> nat \<Rightarrow> (string \<times> (gas_sel \<times> real) list) option"
  is_busy :: bool
  heap :: "ref \<Rightarrow> real list"
  issued :: "(bool \<times> command) list"
  dev_fails :: "command \<Rightarrow> bool"

type_synonym 'a prog = "Gas_System \<Rightarrow> 'a outcome \<times> Gas_System"

definition return :: "'a \<Rightarrow> 'a prog" where
  "return x = (\<lambda>s. (Returns x, s))"

definition raise :: "py_error \<Rightarrow> 'a prog" where
  "raise e = (\<lambda>s. (Raises e, s))"

text \<open>One statement after another: an exception or a hang ends the method.\<close>

definition then_do :: "'a prog \<Rightarrow> ('a \<Rightarrow> 'b prog) \<Rightarrow> 'b prog" where
  "then_do m f =
     (\<lambda>s. case m s of
             (Returns x, s') \<Rightarrow> f x s'
           | (Raises e, s') \<Rightarrow> (Raises e, s')
           | (Hangs, s') \<Rightarrow> (Hangs, s'))"

definition dev_effect :: "command \<Rightarrow> Gas_System \<Rightarrow> Gas_System" where
  "dev_effect c s =
     (case c of
        Set_gas ch g \<Rightarrow> s\<lparr>gas := (gas s)(ch := g)\<rparr>
      | Set_flow_rate ch x \<Rightarrow> s\<lparr>setpoint := (setpoint s)(ch := x)\<rparr>
      | Create_mix ch n name gases \<Rightarrow>
          s\<lparr>mixes := (mixes s)(ch := (mixes s ch)(n \<mapsto> (name, gases)))\<rparr>
      | Get ch \<Rightarrow> s
      | Close ch \<Rightarrow> s)"

definition dev :: "command \<Rightarrow> unit prog" where
  "dev c =
     (\<lambda>s. let s' = s\<lparr>issued := issued s @ [(is_busy s, c)]\<rparr>
          in if dev_fails s c then (Raises DeviceError, s') else (Returns (), dev_effect c s'))"

text \<open>\<^verbatim>\<open>mfc.get()['gas']\<close>\<close>

definition get_gas :: "channel \<Rightarrow> gas_sel prog" where
  "get_gas ch = then_do (dev (Get ch)) (\<lambda>_. (\<lambda>s. (Returns (gas s ch), s)))"

text \<open>\<^verbatim>\<open>while self.is_busy: time.sleep(0)\<close> and the assignments to the flag.\<close>

definition wait_while_busy :: "unit prog" where
  "wait_while_busy = (\<lambda>s. if is_busy s then (Hangs, s) else (Returns (), s))"

definition set_is_busy :: "bool \<Rightarrow> unit prog" where
  "set_is_busy b = (\<lambda>s. (Returns (), s\<lparr>is_busy := b\<rparr>))"

text \<open>\<^verbatim>\<open>xs[i]\<close> on a Python list, with a non-negative \<open>i\<close>.\<close>

definition py_index :: "'a list \<Rightarrow> nat \<Rightarrow> 'a prog" where
  "py_index xs i = (if i < length xs then return (xs ! i) else raise IndexError)"

text \<open>\<^verbatim>\<open>comp_list[i]\<close> where \<open>comp_list\<close> is the list object at a reference.\<close>

definition read_index :: "ref \<Rightarrow> nat \<Rightarrow> real prog" where
  "read_index r i = (\<lambda>s. py_index (heap s r) i s)"

subsection \<open>\<open>check_comp_total\<close>\<close>

text \<open>
  The slice assignment \<^verbatim>\<open>comp_list[:] = [x/100 for x in comp_list]\<close> changes the list
  object the caller passed; the method returns that same object. The sums are float
  sums and are compared exactly, as \<^verbatim>\<open>==\<close> and \<^verbatim>\<open>!=\<close> do.
\<close>

definition check_comp_total :: "ref \<Rightarrow> ref prog" where
  "check_comp_total comp_list =
     (\<lambda>s. let s1 = (if py_sum (heap s comp_list) = 100
                    then s\<lparr>heap := (heap s)(comp_list :=
                                    map (\<lambda>x. fl (x / 100)) (heap s comp_list))\<rparr>
                    else s)
          in if py_sum (heap s1 comp_list) \<noteq> 1 \<and> py_sum (heap s1 comp_list) \<noteq> 0
             then (Raises AttributeError, s1)
             else (Returns comp_list, s1))"

subsection \<open>\<open>set_gasses\<close>\<close>

definition set_gasses :: "gas_sel list \<Rightarrow> unit prog" where
  "set_gasses gas_list =
     then_do wait_while_busy (\<lambda>_.
     then_do (set_is_busy True) (\<lambda>_.
     then_do
       (then_do (py_index gas_list 0) (\<lambda>g. then_do (dev (Set_gas MFC_A g)) (\<lambda>_.
        then_do (py_index gas_list 1) (\<lambda>g. then_do (dev (Set_gas MFC_B g)) (\<lambda>_.
        then_do (py_index gas_list 2) (\<lambda>g. then_do (dev (Set_gas MFC_C g)) (\<lambda>_.
        then_do (py_index gas_list 3) (\<lambda>g. dev (Set_gas MFC_D g))))))))) (\<lambda>_.
     set_is_busy False)))"

subsection \<open>\<open>set_gasE\<close>\<close>

text \<open>
  \<^verbatim>\<open>dict(zip(gas_list, percents))\<close>: a dictionary in insertion order; a key that comes
  again keeps its place and takes the new value.
\<close>

definition py_dict :: "('k \<times> 'v) list \<Rightarrow> ('k \<times> 'v) list" where
  "py_dict pairs = fold (\<lambda>(k, v) d. AList.update k v d) pairs []"

text \<open>The lines between \<^verbatim>\<open>self.is_busy = True\<close> and \<^verbatim>\<open>self.is_busy = False\<close>.\<close>

definition set_gasE_body :: "ref \<Rightarrow> unit prog" where
  "set_gasE_body comp_list =
     then_do (get_gas MFC_A) (\<lambda>gA.
     then_do (get_gas MFC_B) (\<lambda>gB.
     then_do (get_gas MFC_C) (\<lambda>gC.
     then_do (get_gas MFC_D) (\<lambda>gD.
     (\<lambda>s. let gas_list = [gA, gB, gC, gD];
              percents = map (\<lambda>x. fl (x * 100)) (heap s comp_list);
              gas_dict = py_dict (zip gas_list percents);
              gas_dict = filter (\<lambda>(x, y). y \<noteq> 0) gas_dict
          in (if length gas_dict > 1
              then then_do (dev (Create_mix MFC_E 236 ''output'' gas_dict)) (\<lambda>_.
                   dev (Set_gas MFC_E (Mix 236)))
              else then_do (py_index (map fst gas_dict) 0) (\<lambda>g.
                   dev (Set_gas MFC_E g))) s)))))"

definition set_gasE :: "ref \<Rightarrow> unit prog" where
  "set_gasE comp_list =
     then_do (check_comp_total comp_list) (\<lambda>comp_list.
     then_do wait_while_busy (\<lambda>_.
     then_do (set_is_busy True) (\<lambda>_.
     then_do (set_gasE_body comp_list) (\<lambda>_.
     set_is_busy False))))"

subsection \<open>\<open>set_flows\<close>\<close>

definition set_flows :: "ref \<Rightarrow> real \<Rightarrow> unit prog" where
  "set_flows comp_list tot_flow =
     then_do (check_comp_total comp_list) (\<lambda>comp_list.
     then_do wait_while_busy (\<lambda>_.
     then_do (set_is_busy True) (\<lambda>_.
     then_do
       (then_do (read_index comp_list 0) (\<lambda>x. then_do (dev (Set_flow_rate MFC_A (fl (x * tot_flow)))) (\<lambda>_.
        then_do (read_index comp_list 1) (\<lambda>x. then_do (dev (Set_flow_rate MFC_B (fl (x * tot_flow)))) (\<lambda>_.
        then_do (read_index comp_list 2) (\<lambda>x. then_do (dev (Set_flow_rate MFC_C (fl (x * tot_flow)))) (\<lambda>_.
        then_do (read_index comp_list 3) (\<lambda>x. dev (Set_flow_rate MFC_D (fl (x * tot_flow))))))))))) (\<lambda>_.
     then_do (set_is_busy False) (\<lambda>_.
     set_gasE comp_list)))))"

subsection \<open>\<open>read_flows\<close>, \<open>shut_down\<close>, \<open>disconnect\<close>\<close>

definition read_flows :: "gas_sel list prog" where
  "read_flows =
     then_do wait_while_busy (\<lambda>_.
     then_do (set_is_busy True) (\<lambda>_.
     then_do
       (then_do (get_gas MFC_A) (\<lambda>a.
        then_do (get_gas MFC_B) (\<lambda>b.
        then_do (get_gas MFC_C) (\<lambda>c.
        then_do (get_gas MFC_D) (\<lambda>d.
        then_do (get_gas MFC_E) (\<lambda>e. return [a, b, c, d, e])))))) (\<lambda>flow_dict.
     then_do (set_is_busy False) (\<lambda>_.
     return flow_dict))))"

definition shut_down_mfc :: "channel \<Rightarrow> unit prog" where
  "shut_down_mfc mfc =
     then_do (get_gas mfc) (\<lambda>g.
       if g \<in> set [Gas ''Ar'', Gas ''N2''] then dev (Set_flow_rate mfc 1)
       else dev (Set_flow_rate mfc 0))"

definition shut_down :: "unit prog" where
  "shut_down =
     then_do wait_while_busy (\<lambda>_.
     then_do (set_is_busy True) (\<lambda>_.
     then_do
       (then_do (shut_down_mfc MFC_A) (\<lambda>_.
        then_do (shut_down_mfc MFC_B) (\<lambda>_.
        then_do (shut_down_mfc MFC_C) (\<lambda>_.
        shut_down_mfc MFC_D)))) (\<lambda>_.
     set_is_busy False)))"

definition disconnect :: "unit prog" where
  "disconnect =
     then_do shut_down (\<lambda>_.
     then_do wait_while_busy (\<lambda>_.
     then_do (set_is_busy True) (\<lambda>_.
     then_do
       (then_do (dev (Close MFC_A)) (\<lambda>_.
        then_do (dev (Close MFC_B)) (\<lambda>_.
        then_do (dev (Close MFC_C)) (\<lambda>_.
        then_do (dev (Close MFC_D)) (\<lambda>_.
        dev (Close MFC_E)))))) (\<lambda>_.
     set_is_busy False))))"

text \<open>The methods above, as one type, to speak of all of them at once.\<close>

datatype operation =
    Op_set_gasses "gas_sel list"
  | Op_set_flows ref real
  | Op_set_gasE ref
  | Op_read_flows
  | Op_shut_down
  | Op_disconnect

definition run :: "operation \<Rightarrow> unit prog" where
  "run op =
     (case op of
        Op_set_gasses gas_list \<Rightarrow> set_gasses gas_list
      | Op_set_flows comp_list tot_flow \<Rightarrow> set_flows comp_list tot_flow
      | Op_set_gasE comp_list \<Rightarrow> set_gasE comp_list
      | Op_read_flows \<Rightarrow> then_do read_flows (\<lambda>_. return ())
      | Op_shut_down \<Rightarrow> shut_down
      | Op_disconnect \<Rightarrow> disconnect)"

subsection \<open>A concrete system\<close>

text \<open>
  Channels A to D hold the given gases, the meter holds argon, no call fails, the flag
  is clear and every reference holds the given list of floats: a number written in the
  list stands for the float nearest to it, as a Python literal does.
\<close>

definition example_system :: "string list \<Rightarrow> real list \<Rightarrow> Gas_System" where
  "example_system gases comp_list =
     \<lparr>gas = (\<lambda>ch. case ch of MFC_A \<Rightarrow> Gas (gases ! 0) | MFC_B \<Rightarrow> Gas (gases ! 1)
                   | MFC_C \<Rightarrow> Gas (gases ! 2) | MFC_D \<Rightarrow> Gas (gases ! 3)
                   | MFC_E \<Rightarrow> Gas ''Ar''),
      setpoint = (\<lambda>_. 0),
      mixes = (\<lambda>_ _. None),
      is_busy = False,
      heap = (\<lambda>_. map fl comp_list),
      issued = [],
      dev_fails = (\<lambda>_. False)\<rparr>"

section \<open>Calibration fitting: \<open>analyze_cal_data\<close>\<close>

text \<open>
  The four values the loop writes for a chemical, in the order of the columns
  \<^verbatim>\<open>'slope':'err_intercept'\<close>: \<open>m\<close>, \<open>err_m\<close>, \<open>b\<close>, \<open>err_b\<close>.
\<close>

record fit =
  slope :: real
  err_slope :: real
  intercept :: real
  err_intercept :: real

text \<open>
  A row of the calibration table: the \<open>ppm\<close> column and the four fit columns, empty
  before a fit is written.
\<close>

record cal_row =
  ppm :: real
  fitted :: "fit option"

text \<open>
  The regression is numpy's: \<open>polyfit\<close> stands for
  \<^verbatim>\<open>np.polyfit(x_data, y_data, 1, cov=True, w=1/y_err)\<close> followed by the square roots of
  the diagonal of the covariance, and takes \<open>x_data\<close>, \<open>y_data\<close> and \<open>y_err\<close>.
  \<open>None\<close> is \<^verbatim>\<open>np.linalg.LinAlgError\<close>.
\<close>

type_synonym polyfit = "real list \<Rightarrow> real list \<Rightarrow> real list \<Rightarrow> fit option"

datatype cal_error = ZeroDivisionError | UnboundLocalError

datatype label = Fit_label fit | Bad_Fit

text \<open>
  What the function is given: the calibration table \<open>calDF\<close> (indexed by chemical), and
  from \<open>run_analysis\<close> the mean and the standard deviation of the counts of each chemical
  over the conditions, with the calibration-gas flow of each condition.
\<close>

record cal_data =
  calDF :: "(string \<times> cal_row) list"
  avg :: "string \<Rightarrow> real list"
  std :: "string \<Rightarrow> real list"
  calgas_flow :: "real list"

text \<open>The data of one chemical, lines 115 to 125.\<close>

definition fit_data :: "cal_data \<Rightarrow> bool \<Rightarrow> string \<Rightarrow> real list \<times> real list \<times> real list" where
  "fit_data d force_zero chemical =
     (let expected_ppm =
            map (\<lambda>f. (case map_of (calDF d) chemical of Some row \<Rightarrow> ppm row | None \<Rightarrow> 0) * f)
                (calgas_flow d)
      in if force_zero
         then (0 # expected_ppm, 0 # avg d chemical, (1 / 10 ^ 19) # std d chemical)
         else (expected_ppm, avg d chemical, std d chemical))"

text \<open>\<^verbatim>\<open>new_calibration.loc[chemical, 'slope':'err_intercept'] = [m, err_m, b, err_b]\<close>\<close>

definition write_fit :: "string \<Rightarrow> fit \<Rightarrow> (string \<times> cal_row) list \<Rightarrow> (string \<times> cal_row) list" where
  "write_fit chemical p table =
     map (\<lambda>(c, row). if c = chemical then (c, row\<lparr>fitted := Some p\<rparr>) else (c, row)) table"

text \<open>
  The loop over the chemicals. The local variables \<open>m\<close>, \<open>err_m\<close>, \<open>b\<close>, \<open>err_b\<close> are assigned
  together, in the \<^verbatim>\<open>try\<close> block only: \<open>locals\<close> is \<open>None\<close> while they are unbound. The
  \<^verbatim>\<open>except\<close> branch only sets the label of the plot; the write to the table comes after
  the \<^verbatim>\<open>try\<close> statement and reads the local variables whatever happened.
\<close>

fun cal_loop ::
  "polyfit \<Rightarrow> cal_data \<Rightarrow> bool \<Rightarrow> string list
    \<Rightarrow> fit option \<times> (string \<times> cal_row) list \<times> (string \<times> label) list
    \<Rightarrow> cal_error + (string \<times> cal_row) list \<times> (string \<times> label) list" where
  "cal_loop pf d force_zero [] (locals, new_calibration, labels) = Inr (new_calibration, labels)"
| "cal_loop pf d force_zero (chemical # rest) (locals, new_calibration, labels) =
     (let (x_data, y_data, y_err) = fit_data d force_zero chemical;
          (locals, labels) =
             (case pf x_data y_data y_err of
                Some p \<Rightarrow> (Some p, labels @ [(chemical, Fit_label p)])
              | None \<Rightarrow> (locals, labels @ [(chemical, Bad_Fit)]))
      in case locals of
           None \<Rightarrow> Inl UnboundLocalError
         | Some p \<Rightarrow>
             cal_loop pf d force_zero rest (locals, write_fit chemical p new_calibration, labels))"

text \<open>
  The function: the grid of the plots divides by \<^verbatim>\<open>len(calchemIDs)//3\<close>, and what is
  returned here is what \<^verbatim>\<open>to_csv\<close> writes, with the labels put on the plots.
\<close>

definition analyze_cal_data ::
  "polyfit \<Rightarrow> cal_data \<Rightarrow> bool
    \<Rightarrow> cal_error + (string \<times> cal_row) list \<times> (string \<times> label) list" where
  "analyze_cal_data pf d force_zero =
     (let calchemIDs = map fst (calDF d);
          new_calibration = calDF d;
          n_rows = length calchemIDs div 3
      in if n_rows = 0 then Inl ZeroDivisionError
         else cal_loop pf d force_zero calchemIDs (None, new_calibration, []))"

subsection \<open>A concrete calibration\<close>

text \<open>
  Three chemicals at two conditions. The counts of the chemical named \<open>singular\<close> are all
  zero; \<open>example_polyfit\<close> fails on such data and otherwise returns the line through the
  last point.
\<close>

definition example_polyfit :: polyfit where
  "example_polyfit x_data y_data y_err =
     (if list_all (\<lambda>y. y = 0) y_data then None
      else Some \<lparr>slope = last y_data / last x_data, err_slope = 0,
                 intercept = 0, err_intercept = 0\<rparr>)"

definition example_cal_data :: "string list \<Rightarrow> string \<Rightarrow> cal_data" where
  "example_cal_data chemicals singular =
     \<lparr>calDF = map (\<lambda>c. (c, \<lparr>ppm = 100, fitted = None\<rparr>)) chemicals,
      avg = (\<lambda>c. if c = singular then [0, 0]
                   else if c = ''CH4'' then [100, 200] else [150, 300]),
      std = (\<lambda>c. [1, 1]),
      calgas_flow = [1 / 2, 1]\<rparr>"

section \<open>The study runner: \<open>MainWindow.start_study\<close>\<close>

text \<open>
  What the runner does to its surroundings, in order. An experiment is named by its
  position in the list widget. \<open>Shutting_down\<close> is the entry of \<open>MainWindow.shut_down\<close>.
\<close>

datatype event =
    Toggle_controls bool
  | Makedirs
  | Create_dirs nat
  | Update_eqpt_list nat
  | Run_experiment nat
  | Shutting_down
  | Gas_shut_down
  | Heater_shut_down
  | Laser_shut_down nat

text \<open>
  The window: which equipment is connected, and the item data of the laser selection box
  (an entry may hold no laser).
\<close>

record MainWindow =
  gas_Status :: bool
  heater_Status :: bool
  laser_selection_box :: "nat option list"

datatype study_outcome = Study_returned | Study_raised

text \<open>\<open>MainWindow.shut_down\<close>: every connected piece of equipment is shut down.\<close>

definition MainWindow_shut_down :: "MainWindow \<Rightarrow> event list" where
  "MainWindow_shut_down w =
     [Shutting_down]
     @ (if gas_Status w then [Gas_shut_down] else [])
     @ (if heater_Status w then [Heater_shut_down] else [])
     @ concat (map (\<lambda>laser. case laser of None \<Rightarrow> [] | Some l \<Rightarrow> [Laser_shut_down l])
                   (laser_selection_box w))"

text \<open>
  The loop over the experiments. \<open>Experiment.run_experiment\<close> is not part of the code at
  hand: \<open>raises e\<close> says whether the run of experiment \<open>e\<close> raises. The result says whether
  the loop was left by an exception.
\<close>

fun run_loop :: "(nat \<Rightarrow> bool) \<Rightarrow> nat list \<Rightarrow> event list \<Rightarrow> bool \<times> event list" where
  "run_loop raises [] trace = (False, trace)"
| "run_loop raises (expt # rest) trace =
     (let trace = trace @ [Create_dirs expt, Update_eqpt_list expt, Run_experiment expt]
      in if raises expt then (True, trace) else run_loop raises rest trace)"

definition start_study ::
  "(nat \<Rightarrow> bool) \<Rightarrow> MainWindow \<Rightarrow> nat list \<Rightarrow> study_outcome \<times> event list" where
  "start_study raises w expt_list =
     (case run_loop raises expt_list [Toggle_controls True, Makedirs] of
        (True, trace) \<Rightarrow> (Study_raised, trace)
      | (False, trace) \<Rightarrow>
          (Study_returned, trace @ MainWindow_shut_down w @ [Toggle_controls False]))"

subsection \<open>A concrete window\<close>

definition example_window :: MainWindow where
  "example_window =
     \<lparr>gas_Status = True, heater_Status = True, laser_selection_box = [Some 0, None]\<rparr>"

section \<open>Notions used in the proofs\<close>

text \<open>
  \<open>issued_busy s s'\<close>: from \<open>s\<close> to \<open>s'\<close> the record of calls has only grown, every new
  call was made with the flag set, and the devices fail on the same calls as before.
\<close>

definition issued_busy :: "Gas_System \<Rightarrow> Gas_System \<Rightarrow> bool" where
  "issued_busy s s' \<longleftrightarrow>
     dev_fails s' = dev_fails s \<and> (\<exists>new. issued s' = issued s @ new \<and> list_all fst new)"

text \<open>
  \<open>in_section p\<close>: started with the flag set, \<open>p\<close> does not wait, leaves the flag set,
  makes every call with the flag set and does not raise \<open>AttributeError\<close>: the statements
  between \<^verbatim>\<open>self.is_busy = True\<close> and \<^verbatim>\<open>self.is_busy = False\<close>.
\<close>

definition in_section :: "'a prog \<Rightarrow> bool" where
  "in_section p \<longleftrightarrow>
     (\<forall>s. is_busy s \<longrightarrow>
        fst (p s) \<noteq> Hangs \<and> fst (p s) \<noteq> Raises AttributeError \<and>
        is_busy (snd (p s)) \<and> issued_busy s (snd (p s)))"

text \<open>
  \<open>brackets p\<close>: started with the flag clear, \<open>p\<close> does not hang, makes every call with the
  flag set, and ends with the flag set exactly when it raises something other than
  \<open>AttributeError\<close>.
\<close>

definition brackets :: "'a prog \<Rightarrow> bool" where
  "brackets p \<longleftrightarrow>
     (\<forall>s. \<not> is_busy s \<longrightarrow>
        fst (p s) \<noteq> Hangs \<and>
        (is_busy (snd (p s)) \<longleftrightarrow> (\<exists>e. fst (p s) = Raises e \<and> e \<noteq> AttributeError)) \<and>
        issued_busy s (snd (p s)))"

text \<open>
  \<open>keeps_heap Q p\<close>: started where the Python lists satisfy \<open>Q\<close>, \<open>p\<close> changes none of
  them.
\<close>

definition keeps_heap :: "((ref \<Rightarrow> real list) \<Rightarrow> bool) \<Rightarrow> 'a prog \<Rightarrow> bool" where
  "keeps_heap Q p \<longleftrightarrow> (\<forall>s. Q (heap s) \<longrightarrow> heap (snd (p s)) = heap s)"

text \<open>
  Of a trace of the study runner, the experiments whose run was started; and of a list
  of experiments, those reached when a run that raises ends the loop: the ones before
  the first that raises, and that one.
\<close>

definition runs_of :: "event list \<Rightarrow> nat list" where
  "runs_of trace = concat (map (\<lambda>ev. case ev of Run_experiment e \<Rightarrow> [e] | _ \<Rightarrow> []) trace)"

definition attempted :: "(nat \<Rightarrow> bool) \<Rightarrow> nat list \<Rightarrow> nat list" where
  "attempted raises expt_list =
     takeWhile (\<lambda>e. \<not> raises e) expt_list @ take 1 (dropWhile (\<lambda>e. \<not> raises e) expt_list)"

section \<open>Properties\<close>

subsection \<open>Rounding\<close>

lemma pow2_pos: "0 < pow2 k"
  by (simp add: pow2_def)

lemma round_even_nonneg: "0 \<le> x \<Longrightarrow> 0 \<le> round_even x"
  by (auto simp: round_even_def Let_def)

lemma round_even_pos: "1 \<le> x \<Longrightarrow> 1 \<le> round_even x"
  by (auto simp: round_even_def Let_def)

lemma pow2_ilog2_le:
  assumes "0 < a"
  shows "pow2 (ilog2 a) \<le> a"
proof (cases "1 \<le> a")
  case True
  let ?n = "nat \<lfloor>a\<rfloor>"
  from True have n: "0 < ?n" by simp
  have two: "(1::nat) < 2" by simp
  from floorlog_bounds [of ?n 2, OF n two] have b: "2 ^ (floorlog 2 ?n - 1) \<le> ?n"
    by (rule conjunct1)
  from n have k: "0 < floorlog 2 ?n" by (simp add: floorlog_def)
  from True have na: "real ?n \<le> a" by simp
  from b have "real (2 ^ (floorlog 2 ?n - 1)) \<le> real ?n"
    by (simp only: of_nat_le_iff)
  then have pw: "(2::real) ^ (floorlog 2 ?n - 1) \<le> real ?n" by simp
  from k have "pow2 (ilog2 a) = 2 ^ (floorlog 2 ?n - 1)"
    using True by (simp add: pow2_def ilog2_def nat_diff_distrib')
  with pw na show ?thesis by (simp only: order_trans [OF pw na])
next
  case False
  let ?n = "nat (\<lceil>1 / a\<rceil> - 1)"
  let ?k = "floorlog 2 ?n"
  from False assms have "1 < 1 / a" by simp
  then have c: "2 \<le> \<lceil>1 / a\<rceil>" by linarith
  then have n: "0 < ?n" by simp
  have two: "(1::nat) < 2" by simp
  from floorlog_bounds [of ?n 2, OF n two] have "?n < 2 ^ ?k"
    by (rule conjunct2)
  then have "Suc ?n \<le> 2 ^ ?k" by (rule Suc_leI)
  then have "real (Suc ?n) \<le> real (2 ^ ?k)" by (simp only: of_nat_le_iff)
  then have up: "real ?n + 1 \<le> 2 ^ ?k" by simp
  from c have "0 \<le> \<lceil>1 / a\<rceil> - 1" by linarith
  then have "int ?n = \<lceil>1 / a\<rceil> - 1" by (rule nat_0_le)
  then have "real_of_int (int ?n) = real_of_int (\<lceil>1 / a\<rceil> - 1)" by (rule arg_cong)
  then have r: "real ?n = real_of_int \<lceil>1 / a\<rceil> - 1"
    by (simp only: of_int_of_nat_eq of_int_diff of_int_1)
  have "1 / a \<le> real_of_int \<lceil>1 / a\<rceil>" by (rule le_of_int_ceiling)
  with up r have "1 / a \<le> 2 ^ ?k" by linarith
  with assms have "1 / 2 ^ ?k \<le> a"
    by (simp add: field_simps)
  moreover from False have "pow2 (ilog2 a) = 1 / 2 ^ ?k"
    by (simp add: pow2_def ilog2_def)
  ultimately show ?thesis by simp
qed

lemma fl_zero: "fl 0 = 0"
  by (simp add: fl_def)

lemma fl_nonneg: "0 \<le> x \<Longrightarrow> 0 \<le> fl x"
  using pow2_pos [of "ilog2 \<bar>x\<bar> - 52"] pow2_pos [of "52 - ilog2 \<bar>x\<bar>"]
    round_even_nonneg [of "\<bar>x\<bar> * pow2 (52 - ilog2 \<bar>x\<bar>)"]
  by (simp add: fl_def Let_def sgn_if)

lemma fl_eq_zero_iff: "fl x = 0 \<longleftrightarrow> x = 0"
proof
  assume z: "fl x = 0"
  show "x = 0"
  proof (rule ccontr)
    assume nz: "x \<noteq> 0"
    let ?a = "\<bar>x\<bar>"
    let ?e = "ilog2 ?a"
    from nz have a: "0 < ?a" by simp
    from pow2_ilog2_le [OF a] have le: "pow2 ?e \<le> ?a" .
    have p: "pow2 ?e * pow2 (52 - ?e) \<ge> 1"
      by (simp add: pow2_def field_simps power_add [symmetric] nat_diff_distrib')
         (auto simp: field_simps power_add [symmetric] intro!: )
    have "1 \<le> ?a * pow2 (52 - ?e)"
    proof -
      have "pow2 ?e * pow2 (52 - ?e) \<le> ?a * pow2 (52 - ?e)"
        using le pow2_pos [of "52 - ?e"] by (simp add: mult_right_mono)
      with p show ?thesis by linarith
    qed
    then have "1 \<le> round_even (?a * pow2 (52 - ?e))" by (rule round_even_pos)
    then have "0 < real_of_int (round_even (?a * pow2 (52 - ?e))) * pow2 (?e - 52)"
      using pow2_pos [of "?e - 52"] by simp
    then have prod: "real_of_int (round_even (?a * pow2 (52 - ?e))) * pow2 (?e - 52) \<noteq> 0"
      by (metis less_irrefl)
    from nz have "fl x = sgn x * (real_of_int (round_even (?a * pow2 (52 - ?e))) * pow2 (?e - 52))"
      by (simp add: fl_def Let_def)
    with z have "sgn x * (real_of_int (round_even (?a * pow2 (52 - ?e))) * pow2 (?e - 52)) = 0"
      by simp
    with prod have "sgn x = 0" by (simp only: mult_eq_0_iff) simp
    with nz show False by (simp add: sgn_zero_iff)
  qed
next
  assume "x = 0"
  then show "fl x = 0" by (simp add: fl_def)
qed

text \<open>
  The roundings that the examples below go through, each computed from the definition:
  the literals \<open>0.1\<close>, \<open>0.2\<close>, \<open>0.3\<close> and \<open>0.7\<close>, the partial sums of the lists and the
  products with 100 and with the total flow.
\<close>

lemma fl_values:
  "fl (1 / 10) = 3602879701896397 / 36028797018963968"
  "fl (1 / 5) = 3602879701896397 / 18014398509481984"
  "fl (1 / 4) = 1 / 4"
  "fl (3 / 10) = 5404319552844595 / 18014398509481984"
  "fl (1 / 2) = 1 / 2"
  "fl (3152519739159347 / 4503599627370496) = 3152519739159347 / 4503599627370496"
  "fl (7 / 10) = 3152519739159347 / 4503599627370496"
  "fl (12610078956637389 / 18014398509481984) = 3152519739159347 / 4503599627370496"
  "fl (3 / 4) = 3 / 4"
  "fl (28823037615171173 / 36028797018963968) = 7205759403792793 / 9007199254740992"
  "fl (32425917317067569 / 36028797018963968) = 2026619832316723 / 2251799813685248"
  "fl (16212958658533785 / 18014398509481984) = 2026619832316723 / 2251799813685248"
  "fl (9007199254740991 / 9007199254740992) = 9007199254740991 / 9007199254740992"
  "fl (36028797018963965 / 36028797018963968) = 9007199254740991 / 9007199254740992"
  "fl (18014398509481983 / 18014398509481984) = 1"
  "fl 1 = 1"
  "fl (5 / 2) = 5 / 2"
  "fl 5 = 5"
  "fl 10 = 10"
  "fl 20 = 20"
  "fl (90071992547409925 / 4503599627370496) = 20"
  "fl 25 = 25"
  "fl (135107988821114875 / 4503599627370496) = 30"
  "fl 30 = 30"
  "fl 40 = 40"
  "fl 50 = 50"
  "fl 70 = 70"
  "fl 75 = 75"
  "fl 90 = 90"
  "fl 100 = 100"
  by code_simp+

subsection \<open>The composition-sweep planner\<close>

lemma np_where_snoc:
  "np_where (rt @ [x]) r = np_where rt r @ (if x = r then [length rt] else [])"
  by (auto simp: np_where_def nth_append intro!: filter_cong)

lemma length_np_where: "length (np_where rt r) = count_list rt r"
  by (induction rt rule: rev_induct) (auto simp: np_where_snoc, simp add: np_where_def)

lemma set_np_where: "set (np_where rt r) = {i. i < length rt \<and> rt ! i = r}"
  by (auto simp: np_where_def)

lemma multiple_loop_length:
  "length (fst (multiple_loop rows ind is (cl, fv))) = length cl"
  by (induction "is" arbitrary: cl fv) (auto simp: Let_def)

lemma multiple_loop_nth:
  "i < length cl \<Longrightarrow> fst (multiple_loop rows ind is (cl, fv)) ! i =
     (if i \<in> set is then map (\<lambda>x. x * col_multiplier (rows ! i)) ind else cl ! i)"
  by (induction "is" arbitrary: cl fv) (auto simp: Let_def nth_list_update)

lemma multiple_loop_fill_length:
  "length fv = length ind \<Longrightarrow> length (snd (multiple_loop rows ind is (cl, fv))) = length ind"
  by (induction "is" arbitrary: cl fv) (auto simp: Let_def)

lemma multiple_loop_fill_nth:
  "length fv = length ind \<Longrightarrow> j < length ind \<Longrightarrow>
   snd (multiple_loop rows ind is (cl, fv)) ! j =
     fv ! j - (\<Sum>i\<leftarrow>is. ind ! j * col_multiplier (rows ! i))"
  by (induction "is" arbitrary: cl fv) (auto simp: Let_def)

lemma fixed_loop_length:
  "length (fst (fixed_loop rows ind is (cl, fv))) = length cl"
  by (induction "is" arbitrary: cl fv) (auto simp: Let_def)

lemma fixed_loop_nth:
  "i < length cl \<Longrightarrow> fst (fixed_loop rows ind is (cl, fv)) ! i =
     (if i \<in> set is then replicate (length ind) (col_start (rows ! i) / 100) else cl ! i)"
  by (induction "is" arbitrary: cl fv) (auto simp: Let_def nth_list_update)

lemma fixed_loop_fill_length:
  "length fv = length ind \<Longrightarrow> length (snd (fixed_loop rows ind is (cl, fv))) = length ind"
  by (induction "is" arbitrary: cl fv) (auto simp: Let_def)

lemma fixed_loop_fill_nth:
  "length fv = length ind \<Longrightarrow> j < length ind \<Longrightarrow>
   snd (fixed_loop rows ind is (cl, fv)) ! j =
     fv ! j - (\<Sum>i\<leftarrow>is. col_start (rows ! i) / 100)"
  by (induction "is" arbitrary: cl fv) (auto simp: Let_def)

lemma fill_loop_length: "length (fill_loop fv is cl) = length cl"
  by (induction "is" arbitrary: cl) auto

lemma fill_loop_nth:
  "i < length cl \<Longrightarrow> fill_loop fv is cl ! i = (if i \<in> set is then fv else cl ! i)"
  by (induction "is" arbitrary: cl) (auto simp: nth_list_update)

lemma build_columns_InrE:
  assumes "build_columns rows = Inr (cl, fv)"
  obtains k ind where
    "Unset \<notin> set (map col_status rows)"
    "np_where (map col_status rows) Ind_Variable = [k]"
    "count_list (map col_status rows) Fill = 1"
    "ind_var_of (rows ! k) = Some ind"
    "fv = snd (fixed_loop rows ind (np_where (map col_status rows) Fixed)
             (multiple_loop rows ind (np_where (map col_status rows) Multiple)
                ((replicate (length rows) [])[k := ind], map (\<lambda>x. 1 - x) ind)))"
    "cl = fill_loop fv (np_where (map col_status rows) Fill)
            (fst (fixed_loop rows ind (np_where (map col_status rows) Fixed)
               (multiple_loop rows ind (np_where (map col_status rows) Multiple)
                  ((replicate (length rows) [])[k := ind], map (\<lambda>x. 1 - x) ind))))"
proof -
  let ?rt = "map col_status rows"
  from assms have a: "Unset \<notin> set ?rt" and b: "count_list ?rt Fill = 1"
    and c: "count_list ?rt Ind_Variable = 1"
    by (auto simp: build_columns_def Let_def split: if_splits)
  from c have "length (np_where ?rt Ind_Variable) = 1" by (simp add: length_np_where)
  then obtain k where k: "np_where ?rt Ind_Variable = [k]"
    by (cases "np_where ?rt Ind_Variable") auto
  from assms a b c k obtain ind where i: "ind_var_of (rows ! k) = Some ind"
    by (auto simp: build_columns_def Let_def split: option.splits)
  from assms a b c k i have
    "fv = snd (fixed_loop rows ind (np_where ?rt Fixed)
             (multiple_loop rows ind (np_where ?rt Multiple)
                ((replicate (length rows) [])[k := ind], map (\<lambda>x. 1 - x) ind)))"
    and "cl = fill_loop fv (np_where ?rt Fill)
            (fst (fixed_loop rows ind (np_where ?rt Fixed)
               (multiple_loop rows ind (np_where ?rt Multiple)
                  ((replicate (length rows) [])[k := ind], map (\<lambda>x. 1 - x) ind))))"
    by (auto simp: build_columns_def Let_def split_def)
  with a b k i show thesis using that by blast
qed

lemma fixed_loop_length': "length (fst (fixed_loop rows ind is p)) = length (fst p)"
  by (cases p) (simp add: fixed_loop_length)

lemma fixed_loop_nth':
  "i < length (fst p) \<Longrightarrow> fst (fixed_loop rows ind is p) ! i =
     (if i \<in> set is then replicate (length ind) (col_start (rows ! i) / 100) else fst p ! i)"
  by (cases p) (simp add: fixed_loop_nth)

lemma fixed_loop_fill_length':
  "length (snd p) = length ind \<Longrightarrow> length (snd (fixed_loop rows ind is p)) = length ind"
  by (cases p) (simp add: fixed_loop_fill_length)

lemma fixed_loop_fill_nth':
  "length (snd p) = length ind \<Longrightarrow> j < length ind \<Longrightarrow>
   snd (fixed_loop rows ind is p) ! j = snd p ! j - (\<Sum>i\<leftarrow>is. col_start (rows ! i) / 100)"
  by (cases p) (simp add: fixed_loop_fill_nth)

text \<open>The columns and the fill vector of an accepted assignment, in closed form.\<close>

lemma build_columns_closed_form:
  assumes "build_columns rows = Inr (cl, fv)"
  shows "\<exists>k ind.
    Unset \<notin> set (map col_status rows) \<and>
    np_where (map col_status rows) Ind_Variable = [k] \<and>
    count_list (map col_status rows) Fill = 1 \<and>
    ind_var_of (rows ! k) = Some ind \<and>
    length cl = length rows \<and>
    length fv = length ind \<and>
    (\<forall>j. j < length ind \<longrightarrow> fv ! j =
        1 - ind ! j
          - (\<Sum>i\<leftarrow>np_where (map col_status rows) Multiple. ind ! j * col_multiplier (rows ! i))
          - (\<Sum>i\<leftarrow>np_where (map col_status rows) Fixed. col_start (rows ! i) / 100)) \<and>
    (\<forall>i. i < length rows \<longrightarrow> cl ! i =
        (case col_status (rows ! i) of
           Ind_Variable \<Rightarrow> ind
         | Multiple \<Rightarrow> map (\<lambda>x. x * col_multiplier (rows ! i)) ind
         | Fixed \<Rightarrow> replicate (length ind) (col_start (rows ! i) / 100)
         | Fill \<Rightarrow> fv
         | Unset \<Rightarrow> []))"
proof -
  let ?rt = "map col_status rows"
  from assms obtain k ind where
    a: "Unset \<notin> set ?rt" and k: "np_where ?rt Ind_Variable = [k]"
    and b: "count_list ?rt Fill = 1" and i: "ind_var_of (rows ! k) = Some ind"
    and fv: "fv = snd (fixed_loop rows ind (np_where ?rt Fixed)
             (multiple_loop rows ind (np_where ?rt Multiple)
                ((replicate (length rows) [])[k := ind], map (\<lambda>x. 1 - x) ind)))"
    and cl: "cl = fill_loop fv (np_where ?rt Fill)
            (fst (fixed_loop rows ind (np_where ?rt Fixed)
               (multiple_loop rows ind (np_where ?rt Multiple)
                  ((replicate (length rows) [])[k := ind], map (\<lambda>x. 1 - x) ind))))"
    by (rule build_columns_InrE)
  have len_cl: "length cl = length rows"
    by (simp add: cl fill_loop_length fixed_loop_length' multiple_loop_length)
  have len_fv: "length fv = length ind"
    by (simp add: fv fixed_loop_fill_length' multiple_loop_fill_length)
  have fv_nth: "fv ! j =
        1 - ind ! j
          - (\<Sum>i\<leftarrow>np_where ?rt Multiple. ind ! j * col_multiplier (rows ! i))
          - (\<Sum>i\<leftarrow>np_where ?rt Fixed. col_start (rows ! i) / 100)"
    if "j < length ind" for j
    using that
    by (simp add: fv fixed_loop_fill_nth' multiple_loop_fill_length multiple_loop_fill_nth)
  have k_set: "set (np_where ?rt Ind_Variable) = {k}" by (simp add: k)
  have cl_nth: "cl ! i =
        (case col_status (rows ! i) of
           Ind_Variable \<Rightarrow> ind
         | Multiple \<Rightarrow> map (\<lambda>x. x * col_multiplier (rows ! i)) ind
         | Fixed \<Rightarrow> replicate (length ind) (col_start (rows ! i) / 100)
         | Fill \<Rightarrow> fv
         | Unset \<Rightarrow> [])" if "i < length rows" for i
  proof -
    from that have "col_status (rows ! i) \<in> set ?rt" by simp
    with a have nu: "col_status (rows ! i) \<noteq> Unset" by metis
    have "i \<in> set (np_where ?rt Ind_Variable) \<longleftrightarrow> col_status (rows ! i) = Ind_Variable"
      using that by (simp add: set_np_where)
    then have ki: "i = k \<longleftrightarrow> col_status (rows ! i) = Ind_Variable"
      by (simp add: k)
    have step1: "fst (multiple_loop rows ind (np_where ?rt Multiple)
                   ((replicate (length rows) [])[k := ind], map (\<lambda>x. 1 - x) ind)) ! i =
       (if col_status (rows ! i) = Multiple then map (\<lambda>x. x * col_multiplier (rows ! i)) ind
        else if col_status (rows ! i) = Ind_Variable then ind else [])"
      using that ki by (auto simp add: multiple_loop_nth set_np_where nth_list_update)
    have step2: "fst (fixed_loop rows ind (np_where ?rt Fixed)
                   (multiple_loop rows ind (np_where ?rt Multiple)
                     ((replicate (length rows) [])[k := ind], map (\<lambda>x. 1 - x) ind))) ! i =
       (if col_status (rows ! i) = Fixed then replicate (length ind) (col_start (rows ! i) / 100)
        else if col_status (rows ! i) = Multiple then map (\<lambda>x. x * col_multiplier (rows ! i)) ind
        else if col_status (rows ! i) = Ind_Variable then ind else [])"
      using that by (simp add: fixed_loop_nth' multiple_loop_length set_np_where step1)
    have step3: "cl ! i =
       (if col_status (rows ! i) = Fill then fv
        else if col_status (rows ! i) = Fixed then replicate (length ind) (col_start (rows ! i) / 100)
        else if col_status (rows ! i) = Multiple then map (\<lambda>x. x * col_multiplier (rows ! i)) ind
        else if col_status (rows ! i) = Ind_Variable then ind else [])"
      unfolding cl using that
      by (simp add: fill_loop_nth fixed_loop_length' multiple_loop_length set_np_where step2)
    show ?thesis
      using nu by (cases "col_status (rows ! i)") (simp_all add: step3)
  qed
  show ?thesis
    by (intro exI [of _ k] exI [of _ ind] conjI allI impI a k b i len_cl len_fv fv_nth cl_nth)
qed

lemma sum_list_if_const:
  "(\<Sum>i\<leftarrow>xs. if P i then (c::real) else 0) = real (length (filter P xs)) * c"
  by (induction xs) (auto simp: algebra_simps)

lemma sum_list_if_filter:
  "(\<Sum>i\<leftarrow>xs. if P i then (f i::real) else 0) = (\<Sum>i\<leftarrow>filter P xs. f i)"
  by (induction xs) auto

lemma build_columns_row_sum:
  assumes "build_columns rows = Inr (cl, fv)" and "j < length fv"
  shows "sum_list (map (\<lambda>col. col ! j) cl) = 1"
proof -
  let ?rt = "map col_status rows"
  let ?n = "length rows"
  from assms(1) obtain k ind where
    a: "Unset \<notin> set ?rt" and k: "np_where ?rt Ind_Variable = [k]"
    and b: "count_list ?rt Fill = 1" and iv: "ind_var_of (rows ! k) = Some ind"
    and len_cl: "length cl = ?n"
    and len_fv: "length fv = length ind"
    and fv_nth': "\<forall>j. j < length ind \<longrightarrow> fv ! j =
        1 - ind ! j
          - (\<Sum>i\<leftarrow>np_where ?rt Multiple. ind ! j * col_multiplier (rows ! i))
          - (\<Sum>i\<leftarrow>np_where ?rt Fixed. col_start (rows ! i) / 100)"
    and cl_nth': "\<forall>i. i < ?n \<longrightarrow> cl ! i =
        (case col_status (rows ! i) of
           Ind_Variable \<Rightarrow> ind
         | Multiple \<Rightarrow> map (\<lambda>x. x * col_multiplier (rows ! i)) ind
         | Fixed \<Rightarrow> replicate (length ind) (col_start (rows ! i) / 100)
         | Fill \<Rightarrow> fv
         | Unset \<Rightarrow> [])"
    using build_columns_closed_form [OF assms(1)] by blast
  note fv_nth = fv_nth' [rule_format] and cl_nth = cl_nth' [rule_format]
  from assms(2) len_fv have j: "j < length ind" by simp
  let ?A = "\<lambda>i. if ?rt ! i = Ind_Variable then ind ! j else 0"
  let ?B = "\<lambda>i. if ?rt ! i = Multiple then ind ! j * col_multiplier (rows ! i) else 0"
  let ?C = "\<lambda>i. if ?rt ! i = Fixed then col_start (rows ! i) / 100 else 0"
  let ?D = "\<lambda>i. if ?rt ! i = Fill then fv ! j else 0"
  have entry: "cl ! i ! j = ?A i + ?B i + ?C i + ?D i" if "i < ?n" for i
  proof -
    from that have "col_status (rows ! i) \<in> set ?rt" by simp
    with a have nu: "col_status (rows ! i) \<noteq> Unset" by metis
    show ?thesis
      using nu that j by (cases "col_status (rows ! i)") (simp_all add: cl_nth)
  qed
  have "map (\<lambda>col. col ! j) cl = map (\<lambda>i. cl ! i ! j) [0..<?n]"
    by (rule nth_equalityI) (simp_all add: len_cl)
  also have "\<dots> = map (\<lambda>i. ?A i + ?B i + ?C i + ?D i) [0..<?n]"
    by (rule map_cong) (simp_all add: entry)
  finally have "sum_list (map (\<lambda>col. col ! j) cl)
      = (\<Sum>i\<leftarrow>[0..<?n]. ?A i) + (\<Sum>i\<leftarrow>[0..<?n]. ?B i)
        + (\<Sum>i\<leftarrow>[0..<?n]. ?C i) + (\<Sum>i\<leftarrow>[0..<?n]. ?D i)"
    by (simp add: sum_list_addf)
  moreover have "(\<Sum>i\<leftarrow>[0..<?n]. ?A i) = ind ! j"
    using k length_np_where [of ?rt Ind_Variable]
    by (simp only: sum_list_if_const) (simp add: np_where_def)
  moreover have "(\<Sum>i\<leftarrow>[0..<?n]. ?D i) = fv ! j"
    using b length_np_where [of ?rt Fill]
    by (simp only: sum_list_if_const) (simp add: np_where_def)
  moreover have "(\<Sum>i\<leftarrow>[0..<?n]. ?B i)
      = (\<Sum>i\<leftarrow>np_where ?rt Multiple. ind ! j * col_multiplier (rows ! i))"
    by (simp only: sum_list_if_filter) (simp add: np_where_def)
  moreover have "(\<Sum>i\<leftarrow>[0..<?n]. ?C i)
      = (\<Sum>i\<leftarrow>np_where ?rt Fixed. col_start (rows ! i) / 100)"
    by (simp only: sum_list_if_filter) (simp add: np_where_def)
  ultimately show ?thesis
    by (simp add: fv_nth [OF j])
qed

lemma arange_nonempty: "start < stop \<Longrightarrow> 0 < step \<Longrightarrow> arange start stop step \<noteq> []"
  by (simp add: arange_def not_le)

lemma build_columns_Inl:
  "build_columns rows = Inl out \<Longrightarrow> out \<in> {Not_ready, Bad_role_count, Invalid_range}"
  by (auto simp: build_columns_def Let_def split_def split: if_splits option.splits)

lemma ind_var_of_nonempty: "ind_var_of row = Some ind \<Longrightarrow> ind \<noteq> []"
  by (auto simp: ind_var_of_def Let_def arange_nonempty split: if_splits)

lemma build_columns_transpose:
  assumes "build_columns rows = Inr (cl, fv)"
  shows "np_transpose cl = map (\<lambda>j. map (\<lambda>col. col ! j) cl) [0..<length fv]"
    and "fv \<noteq> []" and "length cl = length rows"
proof -
  let ?rt = "map col_status rows"
  from build_columns_closed_form [OF assms] obtain k ind where
    a: "Unset \<notin> set ?rt" and b: "count_list ?rt Fill = 1"
    and iv: "ind_var_of (rows ! k) = Some ind"
    and len_cl: "length cl = length rows" and len_fv: "length fv = length ind"
    and cl_nth': "\<forall>i. i < length rows \<longrightarrow> cl ! i =
        (case col_status (rows ! i) of
           Ind_Variable \<Rightarrow> ind
         | Multiple \<Rightarrow> map (\<lambda>x. x * col_multiplier (rows ! i)) ind
         | Fixed \<Rightarrow> replicate (length ind) (col_start (rows ! i) / 100)
         | Fill \<Rightarrow> fv
         | Unset \<Rightarrow> [])"
    by blast
  from b have "rows \<noteq> []" by auto
  then have pos: "0 < length rows" by simp
  from pos have "col_status (rows ! 0) \<in> set ?rt" by simp
  with a have nu: "col_status (rows ! 0) \<noteq> Unset" by metis
  have "length (cl ! 0) = length fv"
    using nu cl_nth' [rule_format, OF pos] len_fv
    by (cases "col_status (rows ! 0)") simp_all
  moreover from pos len_cl obtain c cs where "cl = c # cs" by (cases cl) auto
  ultimately show "np_transpose cl = map (\<lambda>j. map (\<lambda>col. col ! j) cl) [0..<length fv]"
    by (simp add: np_transpose_def)
  from ind_var_of_nonempty [OF iv] len_fv show "fv \<noteq> []" by auto
  show "length cl = length rows" by (rule len_cl)
qed

text \<open>
  Claim C1. For every role assignment that the composition-sweep planner accepts, the
  value stored on the experiment is a non-empty composition matrix with one entry per gas
  row in every row, and every row sums to 1 within \<open>1e-9\<close> (in exact arithmetic the sum
  is 1).
\<close>

theorem composition_rows_sum_to_one:
  assumes "expt_type expt \<in> set [''comp_sweep'', ''calibration'']"
    and "fst (update_ind_var g expt) = Updated"
  shows "\<exists>M. ind_var_value (snd (update_ind_var g expt)) = Matrix M \<and> M \<noteq> [] \<and>
           (\<forall>r \<in> set M. length r = length (comp_sweep_widgets g) \<and>
                         \<bar>sum_list r - 1\<bar> \<le> 1 / 10 ^ 9)"
proof -
  from assms obtain cl fv where
    bc: "build_columns (comp_sweep_widgets g) = Inr (cl, fv)"
    and upd: "update_ind_var g expt = (Updated, expt\<lparr>ind_var_value := Matrix (np_transpose cl)\<rparr>)"
    by (auto simp: update_ind_var_def split: sum.splits prod.splits if_splits
          dest: build_columns_Inl)
  note tr = build_columns_transpose [OF bc]
  have "length r = length (comp_sweep_widgets g) \<and> \<bar>sum_list r - 1\<bar> \<le> 1 / 10 ^ 9"
    if "r \<in> set (np_transpose cl)" for r
  proof -
    from that tr(1) obtain j where j: "j < length fv" and r: "r = map (\<lambda>col. col ! j) cl"
      by auto
    from build_columns_row_sum [OF bc j] r have "sum_list r = 1" by simp
    with r tr(3) show ?thesis by simp
  qed
  moreover from tr(1,2) have "np_transpose cl \<noteq> []" by simp
  ultimately show ?thesis using upd by simp
qed


theorem composition_rows_sum_to_one_witness:
  "expt_type example_expt \<in> set [''comp_sweep'', ''calibration''] \<and>
   fst (update_ind_var (example_gui example_rows) example_expt) = Updated \<and>
   (\<exists>M. ind_var_value (snd (update_ind_var (example_gui example_rows) example_expt)) = Matrix M
        \<and> M \<noteq> [] \<and>
        (\<forall>r \<in> set M. length r = length (comp_sweep_widgets (example_gui example_rows)) \<and>
                      \<bar>sum_list r - 1\<bar> \<le> 1 / 10 ^ 9))"
proof -
  have h1: "expt_type example_expt \<in> set [''comp_sweep'', ''calibration'']"
    by (simp add: example_expt_def)
  have h2: "fst (update_ind_var (example_gui example_rows) example_expt) = Updated"
    by code_simp
  from h1 h2 composition_rows_sum_to_one [OF h1 h2] show ?thesis by blast
qed

lemma build_columns_column_length:
  assumes "build_columns rows = Inr (cl, fv)" and "i < length rows"
  shows "length (cl ! i) = length fv"
proof -
  let ?rt = "map col_status rows"
  from build_columns_closed_form [OF assms(1)] obtain k ind where
    a: "Unset \<notin> set ?rt" and len_fv: "length fv = length ind"
    and cl_nth': "\<forall>i. i < length rows \<longrightarrow> cl ! i =
        (case col_status (rows ! i) of
           Ind_Variable \<Rightarrow> ind
         | Multiple \<Rightarrow> map (\<lambda>x. x * col_multiplier (rows ! i)) ind
         | Fixed \<Rightarrow> replicate (length ind) (col_start (rows ! i) / 100)
         | Fill \<Rightarrow> fv
         | Unset \<Rightarrow> [])"
    by blast
  from assms(2) have "col_status (rows ! i) \<in> set ?rt" by simp
  with a have nu: "col_status (rows ! i) \<noteq> Unset" by metis
  show ?thesis
    using nu cl_nth' [rule_format, OF assms(2)] len_fv
    by (cases "col_status (rows ! i)") simp_all
qed

lemma np_transpose_column:
  assumes "build_columns rows = Inr (cl, fv)" and "i < length rows"
  shows "map (\<lambda>r. r ! i) (np_transpose cl) = cl ! i"
proof -
  have "map (\<lambda>r. r ! i) (np_transpose cl) = map (\<lambda>j. cl ! i ! j) [0..<length (cl ! i)]"
    using assms build_columns_transpose(3) [OF assms(1)]
    by (simp add: build_columns_transpose(1) [OF assms(1)] build_columns_column_length [OF assms])
  then show ?thesis by (simp add: map_nth)
qed

lemma build_columns_role_column:
  assumes "build_columns rows = Inr (cl, fv)"
  shows "np_where (map col_status rows) Fill = [f] \<Longrightarrow> f < length rows \<and> cl ! f = fv"
    and "np_where (map col_status rows) Ind_Variable = [k] \<Longrightarrow>
           k < length rows \<and> ind_var_of (rows ! k) = Some (cl ! k)"
proof -
  let ?rt = "map col_status rows"
  from build_columns_closed_form [OF assms(1)] obtain k' ind where
    k': "np_where ?rt Ind_Variable = [k']" and iv: "ind_var_of (rows ! k') = Some ind"
    and cl_nth': "\<forall>i. i < length rows \<longrightarrow> cl ! i =
        (case col_status (rows ! i) of
           Ind_Variable \<Rightarrow> ind
         | Multiple \<Rightarrow> map (\<lambda>x. x * col_multiplier (rows ! i)) ind
         | Fixed \<Rightarrow> replicate (length ind) (col_start (rows ! i) / 100)
         | Fill \<Rightarrow> fv
         | Unset \<Rightarrow> [])"
    by blast
  {
    assume "np_where ?rt Fill = [f]"
    then have "f \<in> set (np_where ?rt Fill)" by simp
    then have f: "f < length rows" "col_status (rows ! f) = Fill"
      by (auto simp add: set_np_where)
    with cl_nth' [rule_format, OF f(1)] show "f < length rows \<and> cl ! f = fv" by simp
  }
  {
    assume "np_where ?rt Ind_Variable = [k]"
    with k' have kk: "k' = k" by simp
    from k' have "k' \<in> set (np_where ?rt Ind_Variable)" by simp
    then have k: "k' < length rows" "col_status (rows ! k') = Ind_Variable"
      by (auto simp add: set_np_where)
    with cl_nth' [rule_format, OF k(1)] iv kk
    show "k < length rows \<and> ind_var_of (rows ! k) = Some (cl ! k)" by simp
  }
qed

text \<open>
  Claim C2. Whenever the planner has computed a fill vector and some entry of it is
  negative, the sweep is rejected as a whole and the experiment is left as it was: no
  matrix is stored. A matrix is stored only when every entry of the fill vector is
  non-negative, and then the fill column of the stored matrix is that vector, unclamped.
\<close>

theorem negative_fill_rejects_sweep:
  assumes "expt_type expt \<in> set [''comp_sweep'', ''calibration'']"
    and "build_columns (comp_sweep_widgets g) = Inr (cl, fv)"
  shows "(list_ex (\<lambda>x. x < 0) fv \<longrightarrow> update_ind_var g expt = (Composition_overflow, expt)) \<and>
         (fst (update_ind_var g expt) = Updated \<longrightarrow>
            (\<exists>M. ind_var_value (snd (update_ind_var g expt)) = Matrix M \<and>
                 (\<forall>f. np_where (map col_status (comp_sweep_widgets g)) Fill = [f] \<longrightarrow>
                        map (\<lambda>r. r ! f) M = fv) \<and>
                 list_all (\<lambda>x. 0 \<le> x) fv))"
proof (intro conjI impI)
  assume "list_ex (\<lambda>x. x < 0) fv"
  with assms show "update_ind_var g expt = (Composition_overflow, expt)"
    by (simp add: update_ind_var_def)
next
  assume u: "fst (update_ind_var g expt) = Updated"
  with assms have neg: "\<not> list_ex (\<lambda>x. x < 0) fv"
    by (auto simp: update_ind_var_def split: if_splits)
  with assms have upd:
    "update_ind_var g expt = (Updated, expt\<lparr>ind_var_value := Matrix (np_transpose cl)\<rparr>)"
    by (simp add: update_ind_var_def)
  have "map (\<lambda>r. r ! f) (np_transpose cl) = fv"
    if "np_where (map col_status (comp_sweep_widgets g)) Fill = [f]" for f
    using build_columns_role_column(1) [OF assms(2) that] np_transpose_column [OF assms(2)]
    by simp
  moreover from neg have "list_all (\<lambda>x. 0 \<le> x) fv"
    by (simp add: list_ex_iff list_all_iff not_less)
  ultimately show "\<exists>M. ind_var_value (snd (update_ind_var g expt)) = Matrix M \<and>
                 (\<forall>f. np_where (map col_status (comp_sweep_widgets g)) Fill = [f] \<longrightarrow>
                        map (\<lambda>r. r ! f) M = fv) \<and>
                 list_all (\<lambda>x. 0 \<le> x) fv"
    by (simp add: upd)
qed

theorem negative_fill_rejects_sweep_witness:
  "expt_type example_expt \<in> set [''comp_sweep'', ''calibration''] \<and>
   build_columns (comp_sweep_widgets (example_gui example_overflow_rows)) =
     Inr ([[0, 1 / 20, 1 / 10], [0, 0, 0], [19 / 20, 19 / 20, 19 / 20], [1 / 20, 0, - (1 / 20)]],
          [1 / 20, 0, - (1 / 20)]) \<and>
   update_ind_var (example_gui example_overflow_rows) example_expt =
     (Composition_overflow, example_expt)"
proof -
  have h1: "expt_type example_expt \<in> set [''comp_sweep'', ''calibration'']"
    by (simp add: example_expt_def)
  have h2: "build_columns (comp_sweep_widgets (example_gui example_overflow_rows)) =
     Inr ([[0, 1 / 20, 1 / 10], [0, 0, 0], [19 / 20, 19 / 20, 19 / 20], [1 / 20, 0, - (1 / 20)]],
          [1 / 20, 0, - (1 / 20)])"
    by code_simp
  from negative_fill_rejects_sweep [OF h1 h2] h1 h2 show ?thesis by simp
qed

text \<open>
  Claim C5 as stated fails. With start 0, stop 10 and step 3 the stored column of the
  independent variable is \<open>[0, 0.03, 0.06, 0.09]\<close>, which is
  \<open>arange(0, 10 + 1, 3) / 100\<close> and not \<open>arange(0, 10 + 3, 3) / 100\<close>; and start 5,
  stop 5 (stop not above start) is accepted.
\<close>

theorem ind_var_vector_counterexample:
  "update_ind_var (example_gui (example_sweep_rows 0 10 3)) example_expt =
     (Updated, example_expt\<lparr>ind_var_value :=
        Matrix [[0, 1, 0, 0], [3 / 100, 97 / 100, 0, 0], [3 / 50, 47 / 50, 0, 0],
                [9 / 100, 91 / 100, 0, 0]]\<rparr>) \<and>
   map (\<lambda>r. r ! 0) [[0, 1, 0, 0], [3 / 100, 97 / 100, 0, 0], [3 / 50, 47 / 50, 0, 0],
                    [9 / 100, 91 / 100, 0, 0 :: real]]
     \<noteq> map (\<lambda>x. x / 100) (arange 0 (10 + 3) 3) \<and>
   \<not> (5 :: real) > 5 \<and>
   fst (update_ind_var (example_gui (example_sweep_rows 5 5 1)) example_expt) = Updated"
  by code_simp

text \<open>
  Claim C5, amended. When the planner accepts an assignment, the column of the
  independent-variable row in the stored matrix is \<open>arange(start, stop + 1, step) / 100\<close>
  of that row, and the fill vector is \<open>1 - ind_var\<close> less the Multiple columns and the
  Fixed constants. Any assignment with \<open>stop + 1 \<le> start\<close> or \<open>step \<le> 0\<close> in that row is
  rejected and stores nothing.
\<close>

theorem ind_var_vector_stop_plus_one:
  assumes "expt_type expt \<in> set [''comp_sweep'', ''calibration'']"
    and "np_where (map col_status (comp_sweep_widgets g)) Ind_Variable = [k]"
  shows "(fst (update_ind_var g expt) = Updated \<longrightarrow>
           (\<exists>M cl fv. build_columns (comp_sweep_widgets g) = Inr (cl, fv) \<and>
              ind_var_value (snd (update_ind_var g expt)) = Matrix M \<and>
              map (\<lambda>r. r ! k) M = cl ! k \<and>
              cl ! k = map (\<lambda>x. x / 100)
                         (arange (col_start (comp_sweep_widgets g ! k))
                                 (col_stop (comp_sweep_widgets g ! k) + 1)
                                 (col_step (comp_sweep_widgets g ! k))) \<and>
              (\<forall>j < length fv. fv ! j =
                 1 - cl ! k ! j
                   - (\<Sum>i\<leftarrow>np_where (map col_status (comp_sweep_widgets g)) Multiple.
                        cl ! k ! j * col_multiplier (comp_sweep_widgets g ! i))
                   - (\<Sum>i\<leftarrow>np_where (map col_status (comp_sweep_widgets g)) Fixed.
                        col_start (comp_sweep_widgets g ! i) / 100)))) \<and>
         (col_stop (comp_sweep_widgets g ! k) + 1 \<le> col_start (comp_sweep_widgets g ! k)
            \<or> col_step (comp_sweep_widgets g ! k) \<le> 0 \<longrightarrow>
          fst (update_ind_var g expt) \<in> {Not_ready, Bad_role_count, Invalid_range} \<and>
          snd (update_ind_var g expt) = expt)"
proof (rule conjI; rule impI)
  let ?rows = "comp_sweep_widgets g"
  assume u: "fst (update_ind_var g expt) = Updated"
  with assms(1) obtain cl fv where
    bc: "build_columns ?rows = Inr (cl, fv)"
    and upd: "update_ind_var g expt = (Updated, expt\<lparr>ind_var_value := Matrix (np_transpose cl)\<rparr>)"
    by (auto simp: update_ind_var_def split: sum.splits prod.splits if_splits
          dest: build_columns_Inl)
  from build_columns_role_column(2) [OF bc assms(2)]
  have k: "k < length ?rows" and iv: "ind_var_of (?rows ! k) = Some (cl ! k)" by simp_all
  have col: "map (\<lambda>r. r ! k) (np_transpose cl) = cl ! k"
    by (rule np_transpose_column [OF bc k])
  from iv have ar: "cl ! k = map (\<lambda>x. x / 100)
        (arange (col_start (?rows ! k)) (col_stop (?rows ! k) + 1) (col_step (?rows ! k)))"
    by (auto simp: ind_var_of_def Let_def split: if_splits)
  from build_columns_closed_form [OF bc] assms(2) iv
  have fill: "\<forall>j < length fv. fv ! j =
                 1 - cl ! k ! j
                   - (\<Sum>i\<leftarrow>np_where (map col_status ?rows) Multiple.
                        cl ! k ! j * col_multiplier (?rows ! i))
                   - (\<Sum>i\<leftarrow>np_where (map col_status ?rows) Fixed.
                        col_start (?rows ! i) / 100)"
    by auto
  show "\<exists>M cl fv. build_columns ?rows = Inr (cl, fv) \<and>
              ind_var_value (snd (update_ind_var g expt)) = Matrix M \<and>
              map (\<lambda>r. r ! k) M = cl ! k \<and>
              cl ! k = map (\<lambda>x. x / 100)
                         (arange (col_start (?rows ! k)) (col_stop (?rows ! k) + 1)
                                 (col_step (?rows ! k))) \<and>
              (\<forall>j < length fv. fv ! j =
                 1 - cl ! k ! j
                   - (\<Sum>i\<leftarrow>np_where (map col_status ?rows) Multiple.
                        cl ! k ! j * col_multiplier (?rows ! i))
                   - (\<Sum>i\<leftarrow>np_where (map col_status ?rows) Fixed.
                        col_start (?rows ! i) / 100))"
    apply (rule exI [of _ "np_transpose cl"], rule exI [of _ cl], rule exI [of _ fv])
    using bc col ar fill by (simp add: upd)
next
  let ?rows = "comp_sweep_widgets g"
  assume bad: "col_stop (?rows ! k) + 1 \<le> col_start (?rows ! k) \<or> col_step (?rows ! k) \<le> 0"
  then have none: "ind_var_of (?rows ! k) = None"
    by (auto simp: ind_var_of_def Let_def)
  have "\<exists>out. build_columns ?rows = Inl out"
  proof (cases "build_columns ?rows")
    case (Inl out)
    then show ?thesis by blast
  next
    case (Inr p)
    then have "build_columns ?rows = Inr (fst p, snd p)" by simp
    from build_columns_role_column(2) [OF this assms(2)] none show ?thesis by simp
  qed
  then obtain out where out: "build_columns ?rows = Inl out" by blast
  with assms(1) have "update_ind_var g expt = (out, expt)"
    by (simp add: update_ind_var_def)
  with build_columns_Inl [OF out]
  show "fst (update_ind_var g expt) \<in> {Not_ready, Bad_role_count, Invalid_range} \<and>
          snd (update_ind_var g expt) = expt"
    by simp
qed

theorem ind_var_vector_stop_plus_one_witness:
  "expt_type example_expt \<in> set [''comp_sweep'', ''calibration''] \<and>
   np_where (map col_status (comp_sweep_widgets (example_gui (example_sweep_rows 0 10 3))))
     Ind_Variable = [0] \<and>
   fst (update_ind_var (example_gui (example_sweep_rows 0 10 3)) example_expt) = Updated \<and>
   (\<exists>M cl fv. build_columns (comp_sweep_widgets (example_gui (example_sweep_rows 0 10 3)))
                 = Inr (cl, fv) \<and>
      ind_var_value (snd (update_ind_var (example_gui (example_sweep_rows 0 10 3)) example_expt))
        = Matrix M \<and>
      map (\<lambda>r. r ! 0) M = cl ! 0 \<and>
      cl ! 0 = map (\<lambda>x. x / 100) (arange 0 (10 + 1) 3))"
proof -
  have h1: "expt_type example_expt \<in> set [''comp_sweep'', ''calibration'']"
    by (simp add: example_expt_def)
  have h2: "np_where (map col_status (comp_sweep_widgets (example_gui (example_sweep_rows 0 10 3))))
     Ind_Variable = [0]"
    by code_simp
  have h3: "fst (update_ind_var (example_gui (example_sweep_rows 0 10 3)) example_expt) = Updated"
    by code_simp
  have r: "comp_sweep_widgets (example_gui (example_sweep_rows 0 10 3)) ! 0 =
      \<lparr>col_multiplier = 0, col_status = Ind_Variable, col_start = 0, col_stop = 10, col_step = 3\<rparr>"
    by (simp add: example_gui_def example_sweep_rows_def)
  from ind_var_vector_stop_plus_one [OF h1 h2] h3
  have "\<exists>M cl fv. build_columns (comp_sweep_widgets (example_gui (example_sweep_rows 0 10 3)))
                 = Inr (cl, fv) \<and>
      ind_var_value (snd (update_ind_var (example_gui (example_sweep_rows 0 10 3)) example_expt))
        = Matrix M \<and>
      map (\<lambda>r. r ! 0) M = cl ! 0 \<and>
      cl ! 0 = map (\<lambda>x. x / 100) (arange 0 (10 + 1) 3)"
    unfolding r by simp blast
  with h1 h2 h3 show ?thesis by blast
qed

subsection \<open>The gas system\<close>

text \<open>Running a method on a concrete system: the definitions to unfold.\<close>

lemmas gas_eval = example_system_def run_def set_flows_def set_gasE_def set_gasE_body_def
  check_comp_total_def py_sum_def then_do_def wait_while_busy_def set_is_busy_def read_index_def
  py_index_def return_def raise_def dev_def dev_effect_def get_gas_def py_dict_def Let_def
  shut_down_def shut_down_mfc_def fl_values fl_zero

text \<open>
  Claim C3 on the code. The list \<open>[70, 20, 10, 0]\<close> sums to exactly 100, so
  \<open>check_comp_total\<close> divides it by 100 in place; the float sum of the result is
  \<open>1 - 2^-53\<close> (printed \<open>0.9999999999999999\<close>), which \<^verbatim>\<open>!=\<close> tells from 1, and the method
  raises instead of returning the fractions. Nor is there a tolerance for a list of
  fractions: \<open>[0.7, 0.1, 0.1, 0.1]\<close> has the same float sum and raises. The three lists
  the claim names behave as it says: \<open>[25,25,25,25]\<close> gives \<open>[0.25,0.25,0.25,0.25]\<close>,
  \<open>[0.25,0.25,0.25,0.25]\<close> is returned unchanged and \<open>[10,10,10,10]\<close> raises.
\<close>

theorem check_comp_total_percent_list_raises:
  "(let s = example_system [''Ar'', ''H2'', ''N2'', ''O2''] [70, 20, 10, 0]
    in py_sum (heap s 0) = 100 \<and>
       fst (check_comp_total 0 s) = Raises AttributeError \<and>
       heap (snd (check_comp_total 0 s)) 0 = map (\<lambda>x. fl (x / 100)) [70, 20, 10, 0] \<and>
       py_sum (heap (snd (check_comp_total 0 s)) 0) = 1 - 1 / 2 ^ 53) \<and>
   (let s = example_system [''Ar'', ''H2'', ''N2'', ''O2''] [7 / 10, 1 / 10, 1 / 10, 1 / 10]
    in py_sum (heap s 0) = 1 - 1 / 2 ^ 53 \<and>
       fst (check_comp_total 0 s) = Raises AttributeError) \<and>
   (let s = example_system [''Ar'', ''H2'', ''N2'', ''O2''] [25, 25, 25, 25]
    in fst (check_comp_total 0 s) = Returns 0 \<and>
       heap (snd (check_comp_total 0 s)) 0 = [1 / 4, 1 / 4, 1 / 4, 1 / 4]) \<and>
   (let s = example_system [''Ar'', ''H2'', ''N2'', ''O2''] [1 / 4, 1 / 4, 1 / 4, 1 / 4]
    in fst (check_comp_total 0 s) = Returns 0 \<and>
       heap (snd (check_comp_total 0 s)) 0 = [1 / 4, 1 / 4, 1 / 4, 1 / 4]) \<and>
   (let s = example_system [''Ar'', ''H2'', ''N2'', ''O2''] [10, 10, 10, 10]
    in fst (check_comp_total 0 s) = Raises AttributeError \<and>
       heap (snd (check_comp_total 0 s)) 0 = [10, 10, 10, 10])"
  by (simp add: gas_eval)

text \<open>
  Claim C4 on the code. With the gases \<open>[Ar, H2, Ar, Ar]\<close> on channels A to D and the
  fractions \<open>[0.5, 0.2, 0.3, 0]\<close>, \<^verbatim>\<open>dict(zip(gas_list, percents))\<close> keeps the last percent
  of argon, which is 0: the dictionary is \<open>{Ar: 0, H2: 20}\<close>, the zero entry is dropped,
  one gas is left, and \<open>set_gasE\<close> selects pure hydrogen on channel E without writing any
  mixture.
\<close>

theorem set_gasE_duplicate_species_overwritten:
  "(let s = example_system [''Ar'', ''H2'', ''Ar'', ''Ar''] [1 / 2, 1 / 5, 3 / 10, 0];
        s' = snd (set_gasE 0 s)
    in fst (set_gasE 0 s) = Returns () \<and>
       issued s' = [(True, Get MFC_A), (True, Get MFC_B), (True, Get MFC_C), (True, Get MFC_D),
                    (True, Set_gas MFC_E (Gas ''H2''))] \<and>
       mixes s' MFC_E 236 = None \<and>
       gas s' MFC_E = Gas ''H2'') \<and>
   py_dict (zip [Gas ''Ar'', Gas ''H2'', Gas ''Ar'', Gas ''Ar''] [50, 20, 30, 0 :: real]) =
     [(Gas ''Ar'', 0), (Gas ''H2'', 20)]"
  by (simp add: gas_eval)

lemma issued_busy_refl: "issued_busy s s"
  by (simp add: issued_busy_def)

lemma issued_busy_trans: "issued_busy s t \<Longrightarrow> issued_busy t u \<Longrightarrow> issued_busy s u"
  by (auto simp: issued_busy_def)

lemma in_section_then_do:
  assumes "in_section m" and "\<And>x. in_section (f x)"
  shows "in_section (then_do m f)"
  unfolding in_section_def
proof (intro allI impI)
  fix s :: Gas_System assume b: "is_busy s"
  from assms(1) b have m: "fst (m s) \<noteq> Hangs" "fst (m s) \<noteq> Raises AttributeError"
    "is_busy (snd (m s))" "issued_busy s (snd (m s))"
    by (simp_all add: in_section_def)
  show "fst (then_do m f s) \<noteq> Hangs \<and> fst (then_do m f s) \<noteq> Raises AttributeError \<and>
        is_busy (snd (then_do m f s)) \<and> issued_busy s (snd (then_do m f s))"
  proof (cases "fst (m s)")
    case (Returns x)
    then have eq: "then_do m f s = f x (snd (m s))"
      by (cases "m s") (simp add: then_do_def)
    from assms(2) [of x] m(3) have
      "fst (f x (snd (m s))) \<noteq> Hangs" "fst (f x (snd (m s))) \<noteq> Raises AttributeError"
      "is_busy (snd (f x (snd (m s))))" "issued_busy (snd (m s)) (snd (f x (snd (m s))))"
      by (simp_all add: in_section_def)
    with m(4) show ?thesis by (auto simp: eq intro: issued_busy_trans)
  next
    case (Raises e)
    then have eq: "then_do m f s = (Raises e, snd (m s))"
      by (cases "m s") (simp add: then_do_def)
    with m Raises show ?thesis by simp
  next
    case Hangs
    with m show ?thesis by simp
  qed
qed

lemma in_section_return: "in_section (return x)"
  by (simp add: in_section_def return_def issued_busy_refl)

lemma in_section_raise_IndexError: "in_section (raise IndexError)"
  by (simp add: in_section_def raise_def issued_busy_refl)

lemma in_section_dev: "in_section (dev c)"
  by (cases c) (simp_all add: in_section_def dev_def dev_effect_def Let_def issued_busy_def)

lemma in_section_py_index: "in_section (py_index xs i)"
  by (simp add: py_index_def in_section_return in_section_raise_IndexError)

lemma in_section_state: "(\<And>t. in_section (F t)) \<Longrightarrow> in_section (\<lambda>s. F s s)"
  by (simp add: in_section_def)

lemma in_section_read_index: "in_section (read_index r i)"
  unfolding read_index_def by (rule in_section_state) (rule in_section_py_index)

lemma in_section_get_gas: "in_section (get_gas ch)"
  unfolding get_gas_def
  by (rule in_section_then_do [OF in_section_dev])
     (simp add: in_section_def issued_busy_refl)

lemma in_section_shut_down_mfc: "in_section (shut_down_mfc ch)"
  unfolding shut_down_mfc_def
  by (rule in_section_then_do [OF in_section_get_gas]) (simp add: in_section_dev)

lemma in_section_mix_or_single:
  "in_section (if length (d :: (gas_sel \<times> real) list) > 1
              then then_do (dev (Create_mix MFC_E 236 ''output'' d)) (\<lambda>_.
                   dev (Set_gas MFC_E (Mix 236)))
              else then_do (py_index (map fst d) 0) (\<lambda>g.
                   dev (Set_gas MFC_E g)))"
  by (simp add: in_section_then_do in_section_dev in_section_py_index)

lemma in_section_set_gasE_body: "in_section (set_gasE_body r)"
  unfolding set_gasE_body_def
  apply (rule in_section_then_do [OF in_section_get_gas])
  apply (rule in_section_then_do [OF in_section_get_gas])
  apply (rule in_section_then_do [OF in_section_get_gas])
  apply (rule in_section_then_do [OF in_section_get_gas])
  unfolding Let_def
  using in_section_mix_or_single
  apply (simp only: in_section_def)
  apply blast
  done

lemma then_do_eval:
  "then_do m f s =
     (case fst (m s) of
        Returns x \<Rightarrow> f x (snd (m s))
      | Raises e \<Rightarrow> (Raises e, snd (m s))
      | Hangs \<Rightarrow> (Hangs, snd (m s)))"
  by (cases "m s") (simp add: then_do_def split: outcome.splits)

lemma brackets_return: "brackets (return x)"
  by (simp add: brackets_def return_def issued_busy_refl)

lemma brackets_then_do:
  assumes "brackets m" and "\<And>x. brackets (f x)"
  shows "brackets (then_do m f)"
  unfolding brackets_def
proof (intro allI impI)
  fix s :: Gas_System assume b: "\<not> is_busy s"
  from assms(1) b have m: "fst (m s) \<noteq> Hangs"
    "is_busy (snd (m s)) \<longleftrightarrow> (\<exists>e. fst (m s) = Raises e \<and> e \<noteq> AttributeError)"
    "issued_busy s (snd (m s))"
    by (simp_all add: brackets_def)
  show "fst (then_do m f s) \<noteq> Hangs \<and>
        (is_busy (snd (then_do m f s)) \<longleftrightarrow>
           (\<exists>e. fst (then_do m f s) = Raises e \<and> e \<noteq> AttributeError)) \<and>
        issued_busy s (snd (then_do m f s))"
  proof (cases "fst (m s)")
    case (Returns x)
    then have eq: "then_do m f s = f x (snd (m s))" by (simp add: then_do_eval)
    from Returns m(2) have nb: "\<not> is_busy (snd (m s))" by simp
    from assms(2) [of x] nb have
      "fst (f x (snd (m s))) \<noteq> Hangs"
      "is_busy (snd (f x (snd (m s)))) \<longleftrightarrow>
         (\<exists>e. fst (f x (snd (m s))) = Raises e \<and> e \<noteq> AttributeError)"
      "issued_busy (snd (m s)) (snd (f x (snd (m s))))"
      by (simp_all add: brackets_def)
    with m(3) show ?thesis by (auto simp: eq intro: issued_busy_trans)
  next
    case (Raises e)
    then have eq: "then_do m f s = (Raises e, snd (m s))" by (simp add: then_do_eval)
    with m Raises show ?thesis by simp
  next
    case Hangs
    with m show ?thesis by simp
  qed
qed

lemma brackets_section:
  assumes "in_section body" and "\<And>x. brackets (k x)"
  shows "brackets
           (then_do wait_while_busy (\<lambda>_.
            then_do (set_is_busy True) (\<lambda>_.
            then_do body (\<lambda>x.
            then_do (set_is_busy False) (\<lambda>_. k x)))))"
  unfolding brackets_def
proof (intro allI impI)
  fix s :: Gas_System assume b: "\<not> is_busy s"
  let ?s1 = "s\<lparr>is_busy := True\<rparr>"
  let ?p = "then_do wait_while_busy (\<lambda>_.
            then_do (set_is_busy True) (\<lambda>_.
            then_do body (\<lambda>x.
            then_do (set_is_busy False) (\<lambda>_. k x))))"
  have start: "?p s = then_do body (\<lambda>x. then_do (set_is_busy False) (\<lambda>_. k x)) ?s1"
    using b by (simp add: then_do_def wait_while_busy_def set_is_busy_def)
  have s1: "issued_busy s ?s1" by (simp add: issued_busy_def)
  from assms(1) have body: "fst (body ?s1) \<noteq> Hangs" "fst (body ?s1) \<noteq> Raises AttributeError"
    "is_busy (snd (body ?s1))" "issued_busy ?s1 (snd (body ?s1))"
    by (simp_all add: in_section_def)
  show "fst (?p s) \<noteq> Hangs \<and>
        (is_busy (snd (?p s)) \<longleftrightarrow> (\<exists>e. fst (?p s) = Raises e \<and> e \<noteq> AttributeError)) \<and>
        issued_busy s (snd (?p s))"
  proof (cases "fst (body ?s1)")
    case (Returns x)
    let ?s3 = "(snd (body ?s1))\<lparr>is_busy := False\<rparr>"
    from Returns have "then_do body (\<lambda>x. then_do (set_is_busy False) (\<lambda>_. k x)) ?s1
        = then_do (set_is_busy False) (\<lambda>_. k x) (snd (body ?s1))"
      by (simp add: then_do_eval [of body])
    also have "\<dots> = k x ?s3" by (simp add: then_do_def set_is_busy_def)
    finally have eq: "?p s = k x ?s3" by (simp only: start)
    have s3: "issued_busy (snd (body ?s1)) ?s3" by (simp add: issued_busy_def)
    from assms(2) [of x] have
      "fst (k x ?s3) \<noteq> Hangs"
      "is_busy (snd (k x ?s3)) \<longleftrightarrow> (\<exists>e. fst (k x ?s3) = Raises e \<and> e \<noteq> AttributeError)"
      "issued_busy ?s3 (snd (k x ?s3))"
      by (simp_all add: brackets_def)
    moreover from s1 body(4) s3 have "issued_busy s ?s3" by (blast intro: issued_busy_trans)
    ultimately show ?thesis
      unfolding eq by (blast intro: issued_busy_trans)
  next
    case (Raises e)
    then have "then_do body (\<lambda>x. then_do (set_is_busy False) (\<lambda>_. k x)) ?s1
        = (Raises e, snd (body ?s1))"
      by (simp add: then_do_eval [of body])
    then have eq: "?p s = (Raises e, snd (body ?s1))" by (simp only: start)
    from Raises body(2) have "e \<noteq> AttributeError" by auto
    with body(3,4) s1 show ?thesis
      unfolding eq by (auto intro: issued_busy_trans)
  next
    case Hangs
    with body show ?thesis by simp
  qed
qed

lemma then_do_return_unit: "then_do m (\<lambda>_. return (x::unit)) = m"
  by (rule ext) (simp add: then_do_def return_def split: prod.splits outcome.splits)

lemma then_do_return: "then_do m return = m"
  by (rule ext) (simp add: then_do_def return_def split: prod.splits outcome.splits)

lemma brackets_section_unit:
  assumes "in_section body"
  shows "brackets
           (then_do wait_while_busy (\<lambda>_.
            then_do (set_is_busy True) (\<lambda>_.
            then_do body (\<lambda>_. set_is_busy False))))"
  using brackets_section [OF assms, of "\<lambda>_. return ()"]
  by (simp add: brackets_return then_do_return_unit then_do_return)

lemma brackets_check_comp_total: "brackets (check_comp_total r)"
  by (simp add: brackets_def check_comp_total_def Let_def issued_busy_def)

lemma brackets_set_gasses: "brackets (set_gasses gas_list)"
  unfolding set_gasses_def
  by (rule brackets_section_unit) (intro in_section_then_do in_section_py_index in_section_dev)

lemma brackets_set_gasE: "brackets (set_gasE r)"
  unfolding set_gasE_def
  by (rule brackets_then_do [OF brackets_check_comp_total])
     (rule brackets_section_unit [OF in_section_set_gasE_body])

lemma brackets_set_flows: "brackets (set_flows r tot_flow)"
  unfolding set_flows_def
  apply (rule brackets_then_do [OF brackets_check_comp_total])
  apply (rule brackets_section)
   apply (intro in_section_then_do in_section_read_index in_section_dev)
  apply (rule brackets_set_gasE)
  done

lemma brackets_read_flows: "brackets read_flows"
  unfolding read_flows_def
  apply (rule brackets_section)
   apply (intro in_section_then_do in_section_get_gas in_section_return)
  apply (rule brackets_return)
  done

lemma brackets_shut_down: "brackets shut_down"
  unfolding shut_down_def
  by (rule brackets_section_unit) (intro in_section_then_do in_section_shut_down_mfc)

lemma brackets_disconnect: "brackets disconnect"
  unfolding disconnect_def
  apply (rule brackets_then_do [OF brackets_shut_down])
  apply (rule brackets_section_unit)
  apply (intro in_section_then_do in_section_dev)
  done

lemma brackets_run: "brackets (run op)"
  by (cases op)
     (simp_all add: run_def brackets_set_gasses brackets_set_flows brackets_set_gasE
        brackets_shut_down brackets_disconnect brackets_then_do brackets_read_flows
        brackets_return)

text \<open>
  Claim C6, amended. Each of \<open>set_gasses\<close>, \<open>set_flows\<close>, \<open>set_gasE\<close>, \<open>read_flows\<close>,
  \<open>shut_down\<close> and \<open>disconnect\<close>, started with the flag clear, does not wait, makes every
  device call with \<open>is_busy\<close> set, and has cleared the flag when it returns normally; a
  composition check that raises does so with the flag clear. The class has no
  \<^verbatim>\<open>try\<close>/\<^verbatim>\<open>finally\<close>: when a device call or an index raises between the two
  assignments the flag stays set.
\<close>

theorem is_busy_bracket_without_exception_safety:
  assumes "\<not> is_busy s"
  shows "fst (run op s) \<noteq> Hangs \<and>
         (fst (run op s) = Returns () \<longrightarrow> \<not> is_busy (snd (run op s))) \<and>
         (fst (run op s) = Raises AttributeError \<longrightarrow> \<not> is_busy (snd (run op s))) \<and>
         (\<forall>e. fst (run op s) = Raises e \<and> e \<noteq> AttributeError \<longrightarrow> is_busy (snd (run op s))) \<and>
         (\<exists>new. issued (snd (run op s)) = issued s @ new \<and> list_all fst new)"
  using brackets_run [of op] assms
  unfolding brackets_def issued_busy_def by auto

theorem is_busy_bracket_without_exception_safety_witness:
  "(let s = example_system [''Ar'', ''H2'', ''N2'', ''O2''] [25, 25, 25, 25]
    in \<not> is_busy s \<and>
       fst (run (Op_set_flows 0 10) s) = Returns () \<and>
       \<not> is_busy (snd (run (Op_set_flows 0 10) s)) \<and>
       (\<exists>new. issued (snd (run (Op_set_flows 0 10) s)) = issued s @ new \<and> list_all fst new))"
proof -
  let ?s = "example_system [''Ar'', ''H2'', ''N2'', ''O2''] [25, 25, 25, 25]"
  have h: "\<not> is_busy ?s" by (simp add: example_system_def)
  have r: "fst (run (Op_set_flows 0 10) ?s) = Returns ()" by (simp add: gas_eval)
  from is_busy_bracket_without_exception_safety [OF h, of "Op_set_flows 0 10"] h r
  show ?thesis by (simp add: Let_def)
qed

text \<open>
  Claim C6 as stated fails: when the second flow controller raises on its setpoint,
  \<open>set_flows\<close> ends with the exception and \<open>is_busy\<close> still set, and the next operation
  (\<open>shut_down\<close>) waits for the flag for ever.
\<close>

theorem is_busy_left_set_counterexample:
  "(let s = (example_system [''Ar'', ''H2'', ''N2'', ''O2''] [25, 25, 25, 25])
               \<lparr>dev_fails := (\<lambda>c. c = Set_flow_rate MFC_B (5 / 2))\<rparr>;
        s' = snd (run (Op_set_flows 0 10) s)
    in \<not> is_busy s \<and>
       fst (run (Op_set_flows 0 10) s) = Raises DeviceError \<and>
       is_busy s' \<and>
       fst (run Op_shut_down s') = Hangs)"
  by (simp add: gas_eval)

lemma alist_update_set:
  "p \<in> set (AList.update k v al) \<Longrightarrow> p = (k, v) \<or> p \<in> set al"
  by (induction al) (auto split: if_splits)

lemma fold_update_values:
  assumes "\<forall>p \<in> set ps. P (snd p)" and "\<forall>p \<in> set d. P (snd p)"
  shows "\<forall>p \<in> set (fold (\<lambda>(k, v) d. AList.update k v d) ps d). P (snd p)"
  using assms
proof (induction ps arbitrary: d)
  case Nil
  then show ?case by simp
next
  case (Cons a ps)
  obtain k v where a: "a = (k, v)" by (cases a)
  from Cons.prems have "P v" by (simp add: a)
  with Cons.prems(2) have "\<forall>p \<in> set (AList.update k v d). P (snd p)"
    by (auto dest: alist_update_set)
  with Cons.IH [of "AList.update k v d"] Cons.prems(1) show ?case by (simp add: a)
qed

lemma py_dict_all_zero:
  assumes "list_all (\<lambda>x. x = 0) (xs :: real list)"
  shows "filter (\<lambda>(x, y). y \<noteq> 0) (py_dict (zip gl (map (\<lambda>x. fl (x * 100)) xs))) = []"
proof -
  from assms have "\<forall>y \<in> set (map (\<lambda>x. fl (x * 100)) xs). y = 0"
    by (induction xs) (simp_all add: fl_zero)
  then have "\<forall>p \<in> set (zip gl (map (\<lambda>x. fl (x * 100)) xs)). snd p = (0::real)"
    by (auto dest!: set_zip_rightD)
  then have "\<forall>p \<in> set (py_dict (zip gl (map (\<lambda>x. fl (x * 100)) xs))). snd p = 0"
    unfolding py_dict_def by (rule fold_update_values) simp
  then show ?thesis by (auto simp: filter_empty_conv)
qed

lemma set_gasE_body_all_zero:
  assumes "list_all (\<lambda>x. x = 0) (heap s r)"
  shows "fst (set_gasE_body r s) \<noteq> Returns ()"
    and "\<forall>ch. \<not> dev_fails s (Get ch) \<Longrightarrow>
           fst (set_gasE_body r s) = Raises IndexError \<and>
           gas (snd (set_gasE_body r s)) = gas s \<and>
           mixes (snd (set_gasE_body r s)) = mixes s"
  using assms
  by (simp_all add: set_gasE_body_def get_gas_def dev_def dev_effect_def then_do_def Let_def
        py_index_def raise_def py_dict_all_zero)

lemma py_sum_all_zero: "list_all (\<lambda>x. x = 0) xs \<Longrightarrow> py_sum xs = 0"
  unfolding py_sum_def by (induction xs) (simp_all add: fl_zero)

lemma foldl_fl_zero:
  assumes "0 \<le> acc" and "list_all (\<lambda>x. 0 \<le> x) xs"
    and "foldl (\<lambda>acc x. fl (acc + x)) acc xs = 0"
  shows "acc = 0 \<and> list_all (\<lambda>x. x = 0) xs"
  using assms
proof (induction xs arbitrary: acc)
  case Nil
  then show ?case by simp
next
  case (Cons x xs)
  from Cons.prems have x: "0 \<le> x" and xs: "list_all (\<lambda>x. 0 \<le> x) xs" by simp_all
  from Cons.prems(1) x have "0 \<le> fl (acc + x)" by (simp add: fl_nonneg)
  from Cons.IH [OF this xs] Cons.prems(3)
  have "fl (acc + x) = 0" and z: "list_all (\<lambda>x. x = 0) xs" by simp_all
  then have "acc + x = 0" by (simp add: fl_eq_zero_iff)
  with Cons.prems(1) x have "acc = 0" "x = 0" by linarith+
  with z show ?case by simp
qed

lemma py_sum_nonneg_zero:
  "list_all (\<lambda>x. 0 \<le> x) xs \<Longrightarrow> py_sum xs = 0 \<Longrightarrow> list_all (\<lambda>x. x = 0) xs"
  using foldl_fl_zero [of 0 xs] by (simp add: py_sum_def)

lemma set_gasE_all_zero:
  assumes "list_all (\<lambda>x. x = 0) (heap s r)"
  shows "fst (check_comp_total r s) = Returns r \<and>
         fst (set_gasE r s) \<noteq> Returns () \<and>
         (\<not> is_busy s \<and> (\<forall>ch. \<not> dev_fails s (Get ch)) \<longrightarrow>
            fst (set_gasE r s) = Raises IndexError \<and>
            is_busy (snd (set_gasE r s)) \<and>
            gas (snd (set_gasE r s)) = gas s \<and>
            mixes (snd (set_gasE r s)) = mixes s)"
proof -
  let ?s1 = "s\<lparr>is_busy := True\<rparr>"
  from assms have sum0: "py_sum (heap s r) = 0" by (rule py_sum_all_zero)
  then have chk: "check_comp_total r s = (Returns r, s)"
    by (simp add: check_comp_total_def)
  have busy: "fst (set_gasE r s) = Hangs" if "is_busy s"
    using that by (simp add: set_gasE_def then_do_def chk wait_while_busy_def)
  have eq: "set_gasE r s = then_do (set_gasE_body r) (\<lambda>_. set_is_busy False) ?s1"
    if "\<not> is_busy s"
    using that by (simp add: set_gasE_def then_do_def chk wait_while_busy_def set_is_busy_def)
  from assms have z1: "list_all (\<lambda>x. x = 0) (heap ?s1 r)" by simp
  note body = set_gasE_body_all_zero [OF z1]
  have not_ret: "fst (set_gasE r s) \<noteq> Returns ()"
  proof (cases "is_busy s")
    case True
    with busy show ?thesis by simp
  next
    case False
    from body(1) show ?thesis
      unfolding eq [OF False] then_do_eval [of "set_gasE_body r"]
      by (cases "fst (set_gasE_body r ?s1)") simp_all
  qed
  have idx: "fst (set_gasE r s) = Raises IndexError \<and> is_busy (snd (set_gasE r s)) \<and>
             gas (snd (set_gasE r s)) = gas s \<and> mixes (snd (set_gasE r s)) = mixes s"
    if nb: "\<not> is_busy s" and ok: "\<forall>ch. \<not> dev_fails s (Get ch)"
  proof -
    from ok have "\<forall>ch. \<not> dev_fails ?s1 (Get ch)" by simp
    from body(2) [OF this] have b: "fst (set_gasE_body r ?s1) = Raises IndexError"
      "gas (snd (set_gasE_body r ?s1)) = gas s" "mixes (snd (set_gasE_body r ?s1)) = mixes s"
      by simp_all
    from in_section_set_gasE_body [of r] have "is_busy (snd (set_gasE_body r ?s1))"
      by (simp add: in_section_def)
    with b show ?thesis
      unfolding eq [OF nb] then_do_eval [of "set_gasE_body r"] by simp
  qed
  from chk not_ret idx show ?thesis by simp
qed

text \<open>
  Claim C9. For every composition list (fractions, none negative) whose sum is 0,
  \<open>check_comp_total\<close> accepts the list and returns it unchanged, every entry of the
  dictionary is dropped whatever the gases are, and \<open>set_gasE\<close> does not return
  normally: when the flag is clear and the four reads succeed, \<^verbatim>\<open>list(gas_dict)[0]\<close>
  raises \<open>IndexError\<close>, channel E is not updated and \<open>is_busy\<close> is left set. And whenever
  \<open>set_gasE\<close> returns normally, some fraction of the list is not zero.
\<close>

theorem set_gasE_zero_sum_raises_IndexError:
  "(list_all (\<lambda>x. 0 \<le> x) (heap s r) \<and> py_sum (heap s r) = 0 \<longrightarrow>
      check_comp_total r s = (Returns r, s) \<and>
      (\<forall>gas_list. filter (\<lambda>(x, y). y \<noteq> 0)
                     (py_dict (zip gas_list (map (\<lambda>x. fl (x * 100)) (heap s r)))) = []) \<and>
      fst (set_gasE r s) \<noteq> Returns () \<and>
      (\<not> is_busy s \<and> (\<forall>ch. \<not> dev_fails s (Get ch)) \<longrightarrow>
         fst (set_gasE r s) = Raises IndexError \<and>
         is_busy (snd (set_gasE r s)) \<and>
         gas (snd (set_gasE r s)) = gas s \<and>
         mixes (snd (set_gasE r s)) = mixes s)) \<and>
   (fst (set_gasE r s) = Returns () \<longrightarrow> list_ex (\<lambda>x. x \<noteq> 0) (heap s r))"
proof (rule conjI; rule impI)
  assume "list_all (\<lambda>x. 0 \<le> x) (heap s r) \<and> py_sum (heap s r) = 0"
  then have z: "list_all (\<lambda>x. x = 0) (heap s r)" by (simp add: py_sum_nonneg_zero)
  then have "py_sum (heap s r) = 0" by (rule py_sum_all_zero)
  then have chk: "check_comp_total r s = (Returns r, s)"
    by (simp add: check_comp_total_def)
  from z have d: "\<forall>gas_list. filter (\<lambda>(x, y). y \<noteq> 0)
                     (py_dict (zip gas_list (map (\<lambda>x. fl (x * 100)) (heap s r)))) = []"
    by (simp add: py_dict_all_zero)
  from chk d set_gasE_all_zero [OF z]
  show "check_comp_total r s = (Returns r, s) \<and>
      (\<forall>gas_list. filter (\<lambda>(x, y). y \<noteq> 0)
                     (py_dict (zip gas_list (map (\<lambda>x. fl (x * 100)) (heap s r)))) = []) \<and>
      fst (set_gasE r s) \<noteq> Returns () \<and>
      (\<not> is_busy s \<and> (\<forall>ch. \<not> dev_fails s (Get ch)) \<longrightarrow>
         fst (set_gasE r s) = Raises IndexError \<and>
         is_busy (snd (set_gasE r s)) \<and>
         gas (snd (set_gasE r s)) = gas s \<and>
         mixes (snd (set_gasE r s)) = mixes s)"
    by blast
next
  assume ret: "fst (set_gasE r s) = Returns ()"
  show "list_ex (\<lambda>x. x \<noteq> 0) (heap s r)"
  proof (rule ccontr)
    assume "\<not> list_ex (\<lambda>x. x \<noteq> 0) (heap s r)"
    then have "list_all (\<lambda>x. x = 0) (heap s r)"
      by (simp add: list_ex_iff list_all_iff)
    from set_gasE_all_zero [OF this] ret show False by simp
  qed
qed

theorem set_gasE_zero_sum_raises_IndexError_witness:
  "(let s = example_system [''Ar'', ''H2'', ''N2'', ''O2''] [0, 0, 0, 0]
    in list_all (\<lambda>x. 0 \<le> x) (heap s 0) \<and> py_sum (heap s 0) = 0 \<and>
       \<not> is_busy s \<and> (\<forall>ch. \<not> dev_fails s (Get ch)) \<and>
       fst (check_comp_total 0 s) = Returns 0 \<and>
       fst (set_gasE 0 s) = Raises IndexError \<and>
       is_busy (snd (set_gasE 0 s))) \<and>
   (let s = example_system [''Ar'', ''H2'', ''N2'', ''O2''] [1 / 2, 1 / 2, 0, 0]
    in fst (set_gasE 0 s) = Returns () \<and> list_ex (\<lambda>x. x \<noteq> 0) (heap s 0))"
proof -
  let ?s = "example_system [''Ar'', ''H2'', ''N2'', ''O2''] [0, 0, 0, 0]"
  let ?t = "example_system [''Ar'', ''H2'', ''N2'', ''O2''] [1 / 2, 1 / 2, 0, 0]"
  have h1: "list_all (\<lambda>x. 0 \<le> x) (heap ?s 0)" and h2: "py_sum (heap ?s 0) = 0"
    by (simp_all add: gas_eval)
  have h3: "\<not> is_busy ?s" and h4: "\<forall>ch. \<not> dev_fails ?s (Get ch)"
    by (simp_all add: example_system_def)
  have h5: "fst (set_gasE 0 ?t) = Returns ()" by (simp add: gas_eval)
  note first = set_gasE_zero_sum_raises_IndexError
    [of ?s 0, THEN conjunct1, rule_format, OF conjI [OF h1 h2]]
  from first have "check_comp_total 0 ?s = (Returns 0, ?s)" by (rule conjunct1)
  then have a1: "fst (check_comp_total 0 ?s) = Returns 0" by simp
  from first h3 h4 have a2: "fst (set_gasE 0 ?s) = Raises IndexError \<and>
       is_busy (snd (set_gasE 0 ?s))"
    by blast
  from set_gasE_zero_sum_raises_IndexError [of ?t 0, THEN conjunct2, rule_format, OF h5]
  have b: "list_ex (\<lambda>x. x \<noteq> 0) (heap ?t 0)" .
  from h1 h2 h3 h4 h5 a1 a2 b show ?thesis unfolding Let_def by blast
qed

lemma keeps_heap_then_do:
  assumes "keeps_heap Q m" and "\<And>x. keeps_heap Q (f x)"
  shows "keeps_heap Q (then_do m f)"
  unfolding keeps_heap_def
proof (intro allI impI)
  fix s :: Gas_System assume q: "Q (heap s)"
  with assms(1) have m: "heap (snd (m s)) = heap s" by (simp add: keeps_heap_def)
  show "heap (snd (then_do m f s)) = heap s"
  proof (cases "fst (m s)")
    case (Returns x)
    from assms(2) [of x] q m have "heap (snd (f x (snd (m s)))) = heap s"
      by (simp add: keeps_heap_def)
    with Returns show ?thesis by (simp add: then_do_eval)
  next
    case (Raises e)
    with m show ?thesis by (simp add: then_do_eval)
  next
    case Hangs
    with m show ?thesis by (simp add: then_do_eval)
  qed
qed

lemma keeps_heap_return: "keeps_heap Q (return x)"
  by (simp add: keeps_heap_def return_def)

lemma keeps_heap_raise: "keeps_heap Q (raise e)"
  by (simp add: keeps_heap_def raise_def)

lemma keeps_heap_dev: "keeps_heap Q (dev c)"
  by (cases c) (simp_all add: keeps_heap_def dev_def dev_effect_def Let_def)

lemma keeps_heap_py_index: "keeps_heap Q (py_index xs i)"
  by (simp add: py_index_def keeps_heap_return keeps_heap_raise)

lemma keeps_heap_read_index: "keeps_heap Q (read_index r i)"
  by (simp add: keeps_heap_def read_index_def py_index_def return_def raise_def)

lemma keeps_heap_get_gas: "keeps_heap Q (get_gas ch)"
  unfolding get_gas_def
  by (rule keeps_heap_then_do [OF keeps_heap_dev]) (simp add: keeps_heap_def)

lemma keeps_heap_wait: "keeps_heap Q wait_while_busy"
  by (simp add: keeps_heap_def wait_while_busy_def)

lemma keeps_heap_set_is_busy: "keeps_heap Q (set_is_busy b)"
  by (simp add: keeps_heap_def set_is_busy_def)

lemma keeps_heap_mix_or_single:
  "keeps_heap Q (if length (d :: (gas_sel \<times> real) list) > 1
              then then_do (dev (Create_mix MFC_E 236 ''output'' d)) (\<lambda>_.
                   dev (Set_gas MFC_E (Mix 236)))
              else then_do (py_index (map fst d) 0) (\<lambda>g.
                   dev (Set_gas MFC_E g)))"
  by (simp add: keeps_heap_then_do keeps_heap_dev keeps_heap_py_index)

lemma keeps_heap_set_gasE_body: "keeps_heap Q (set_gasE_body r)"
  unfolding set_gasE_body_def
  apply (rule keeps_heap_then_do [OF keeps_heap_get_gas])
  apply (rule keeps_heap_then_do [OF keeps_heap_get_gas])
  apply (rule keeps_heap_then_do [OF keeps_heap_get_gas])
  apply (rule keeps_heap_then_do [OF keeps_heap_get_gas])
  unfolding Let_def
  using keeps_heap_mix_or_single [of Q]
  apply (simp only: keeps_heap_def)
  apply blast
  done

lemma keeps_heap_check_comp_total:
  "keeps_heap (\<lambda>h. py_sum (h r) \<noteq> 100) (check_comp_total r)"
  by (simp add: keeps_heap_def check_comp_total_def)

lemma keeps_heap_set_gasE: "keeps_heap (\<lambda>h. py_sum (h r) \<noteq> 100) (set_gasE r)"
  unfolding set_gasE_def
  by (intro keeps_heap_then_do keeps_heap_check_comp_total keeps_heap_wait
        keeps_heap_set_is_busy keeps_heap_set_gasE_body)

lemma keeps_heap_set_flows_rest:
  "keeps_heap (\<lambda>h. py_sum (h r) \<noteq> 100)
     (then_do wait_while_busy (\<lambda>_.
      then_do (set_is_busy True) (\<lambda>_.
      then_do
        (then_do (read_index r 0) (\<lambda>x. then_do (dev (Set_flow_rate MFC_A (fl (x * tot_flow)))) (\<lambda>_.
         then_do (read_index r 1) (\<lambda>x. then_do (dev (Set_flow_rate MFC_B (fl (x * tot_flow)))) (\<lambda>_.
         then_do (read_index r 2) (\<lambda>x. then_do (dev (Set_flow_rate MFC_C (fl (x * tot_flow)))) (\<lambda>_.
         then_do (read_index r 3) (\<lambda>x. dev (Set_flow_rate MFC_D (fl (x * tot_flow))))))))))) (\<lambda>_.
      then_do (set_is_busy False) (\<lambda>_.
      set_gasE r)))))"
  by (intro keeps_heap_then_do keeps_heap_wait keeps_heap_set_is_busy keeps_heap_read_index
        keeps_heap_dev keeps_heap_set_gasE)

text \<open>
  Claim C10. \<open>check_comp_total\<close> returns the list object it was given; when the list
  sums to exactly 100 that object, the caller's own, is rescaled element by element by
  1/100, and otherwise it is left as it was. No other list is touched, and after
  \<open>set_flows\<close> (however it ends) the lists are as \<open>check_comp_total\<close> left them: the
  caller's list holds fractions.
\<close>

theorem check_comp_total_rescales_callers_list:
  "heap (snd (check_comp_total r s)) =
     (heap s)(r := (if py_sum (heap s r) = 100 then map (\<lambda>x. fl (x / 100)) (heap s r)
                    else heap s r)) \<and>
   (\<forall>r'. fst (check_comp_total r s) = Returns r' \<longrightarrow> r' = r) \<and>
   heap (snd (set_flows r tot_flow s)) = heap (snd (check_comp_total r s))"
proof (intro conjI)
  show "heap (snd (check_comp_total r s)) =
     (heap s)(r := (if py_sum (heap s r) = 100 then map (\<lambda>x. fl (x / 100)) (heap s r)
                    else heap s r))"
    by (simp add: check_comp_total_def Let_def fun_eq_iff)
  show same: "\<forall>r'. fst (check_comp_total r s) = Returns r' \<longrightarrow> r' = r"
    by (simp add: check_comp_total_def Let_def)
  let ?s1 = "snd (check_comp_total r s)"
  show "heap (snd (set_flows r tot_flow s)) = heap ?s1"
  proof (cases "fst (check_comp_total r s)")
    case (Returns x)
    with same have x: "x = r" by simp
    from Returns have "py_sum (heap ?s1 r) = 1 \<or> py_sum (heap ?s1 r) = 0"
      by (simp add: check_comp_total_def Let_def split: if_splits)
    then have "py_sum (heap ?s1 r) \<noteq> 100" by auto
    with keeps_heap_set_flows_rest [of r tot_flow] Returns x show ?thesis
      by (simp add: set_flows_def then_do_eval [of "check_comp_total r"] keeps_heap_def)
  next
    case (Raises e)
    then show ?thesis
      by (simp add: set_flows_def then_do_eval [of "check_comp_total r"])
  next
    case Hangs
    then show ?thesis
      by (simp add: set_flows_def then_do_eval [of "check_comp_total r"])
  qed
qed

theorem check_comp_total_rescales_callers_list_witness:
  "(let s = example_system [''Ar'', ''H2'', ''N2'', ''O2''] [25, 25, 25, 25]
    in fst (set_flows 0 10 s) = Returns () \<and>
       heap (snd (set_flows 0 10 s)) 0 = [1 / 4, 1 / 4, 1 / 4, 1 / 4]) \<and>
   (let s = example_system [''Ar'', ''H2'', ''N2'', ''O2''] [1 / 2, 1 / 2, 0, 0]
    in fst (set_flows 0 10 s) = Returns () \<and>
       heap (snd (set_flows 0 10 s)) 0 = [1 / 2, 1 / 2, 0, 0])"
proof -
  let ?g = "[''Ar'', ''H2'', ''N2'', ''O2'']"
  have a: "fst (set_flows 0 10 (example_system ?g [25, 25, 25, 25])) = Returns ()"
    by (simp add: gas_eval)
  have b: "fst (set_flows 0 10 (example_system ?g [1 / 2, 1 / 2, 0, 0])) = Returns ()"
    by (simp add: gas_eval)
  have c0: "heap (snd (check_comp_total 0 (example_system ?g [25, 25, 25, 25]))) 0
         = [1 / 4, 1 / 4, 1 / 4, 1 / 4]"
    by (simp add: gas_eval)
  have d0: "heap (snd (check_comp_total 0 (example_system ?g [1 / 2, 1 / 2, 0, 0]))) 0
         = [1 / 2, 1 / 2, 0, 0]"
    by (simp add: gas_eval)
  from check_comp_total_rescales_callers_list [of 0 "example_system ?g [25, 25, 25, 25]" 10] c0
  have c: "heap (snd (set_flows 0 10 (example_system ?g [25, 25, 25, 25]))) 0
         = [1 / 4, 1 / 4, 1 / 4, 1 / 4]"
    by simp
  from check_comp_total_rescales_callers_list [of 0 "example_system ?g [1 / 2, 1 / 2, 0, 0]" 10] d0
  have d: "heap (snd (set_flows 0 10 (example_system ?g [1 / 2, 1 / 2, 0, 0]))) 0
         = [1 / 2, 1 / 2, 0, 0]"
    by simp
  from a b c d show ?thesis by (simp add: Let_def)
qed

subsection \<open>Calibration fitting\<close>

text \<open>
  Claim C7 on the code. The write to the calibration table stands after the
  \<^verbatim>\<open>try\<close> statement and reads \<open>m\<close>, \<open>err_m\<close>, \<open>b\<close>, \<open>err_b\<close> whatever happened. When the
  regression of the second chemical is singular, its plot is labelled \<open>Bad Fit\<close> but its
  row of the written table receives the slope and intercept of the first chemical; when
  the regression of the first chemical is singular the variables are unbound and the
  whole calibration ends with an exception, nothing being written.
\<close>

theorem singular_fit_writes_stale_values:
  "analyze_cal_data example_polyfit (example_cal_data [''CH4'', ''C2H4'', ''C2H6''] ''C2H4'') True =
     Inr ([(''CH4'', \<lparr>ppm = 100, fitted =
               Some \<lparr>slope = 2, err_slope = 0, intercept = 0, err_intercept = 0\<rparr>\<rparr>),
           (''C2H4'', \<lparr>ppm = 100, fitted =
               Some \<lparr>slope = 2, err_slope = 0, intercept = 0, err_intercept = 0\<rparr>\<rparr>),
           (''C2H6'', \<lparr>ppm = 100, fitted =
               Some \<lparr>slope = 3, err_slope = 0, intercept = 0, err_intercept = 0\<rparr>\<rparr>)],
          [(''CH4'', Fit_label \<lparr>slope = 2, err_slope = 0, intercept = 0, err_intercept = 0\<rparr>),
           (''C2H4'', Bad_Fit),
           (''C2H6'', Fit_label \<lparr>slope = 3, err_slope = 0, intercept = 0, err_intercept = 0\<rparr>)]) \<and>
   analyze_cal_data example_polyfit (example_cal_data [''CH4'', ''C2H4'', ''C2H6''] ''CH4'') True =
     Inl UnboundLocalError"
  by code_simp

subsection \<open>The study runner\<close>

lemma run_loop_closed:
  "run_loop raises es trace =
     (list_ex raises es,
      trace @ concat (map (\<lambda>e. [Create_dirs e, Update_eqpt_list e, Run_experiment e])
                         (attempted raises es)))"
  by (induction es arbitrary: trace) (simp_all add: attempted_def Let_def)

lemma runs_of_append: "runs_of (xs @ ys) = runs_of xs @ runs_of ys"
  by (simp add: runs_of_def)

lemma runs_of_Nil: "runs_of [] = []"
  by (simp add: runs_of_def)

lemma runs_of_Cons:
  "runs_of (ev # trace) = (case ev of Run_experiment e \<Rightarrow> [e] | _ \<Rightarrow> []) @ runs_of trace"
  by (simp add: runs_of_def)

lemma runs_of_steps:
  "runs_of (concat (map (\<lambda>e. [Create_dirs e, Update_eqpt_list e, Run_experiment e]) es)) = es"
  by (induction es) (simp_all add: runs_of_Nil runs_of_Cons)

lemma count_steps:
  "count_list (concat (map (\<lambda>e. [Create_dirs e, Update_eqpt_list e, Run_experiment e]) es))
     Shutting_down = 0"
  by (induction es) simp_all

lemma count_lasers:
  "count_list (concat (map (\<lambda>laser. case laser of None \<Rightarrow> [] | Some l \<Rightarrow> [Laser_shut_down l]) ls))
     Shutting_down = 0"
  by (induction ls) (simp_all split: option.splits)

lemma runs_of_lasers:
  "runs_of (concat (map (\<lambda>laser. case laser of None \<Rightarrow> [] | Some l \<Rightarrow> [Laser_shut_down l]) ls)) = []"
proof (induction ls)
  case Nil
  show ?case by (simp add: runs_of_Nil)
next
  case (Cons a ls)
  then show ?case by (cases a) (simp_all add: runs_of_Nil runs_of_Cons)
qed

lemma count_MainWindow_shut_down: "count_list (MainWindow_shut_down w) Shutting_down = 1"
  by (simp add: MainWindow_shut_down_def count_lasers)

lemma runs_of_MainWindow_shut_down: "runs_of (MainWindow_shut_down w) = []"
  by (simp add: MainWindow_shut_down_def runs_of_append runs_of_Cons runs_of_Nil runs_of_lasers)

lemma attempted_no_raise: "\<not> list_ex raises es \<Longrightarrow> attempted raises es = es"
  by (induction es) (simp_all add: attempted_def)

text \<open>
  Claim C8, amended. When no run raises, every experiment is run in order and
  \<open>MainWindow.shut_down\<close> is invoked exactly once, after the last run and before the
  controls are enabled again. When a run raises, the experiments after it are not run,
  \<open>start_study\<close> is left by the exception and \<open>shut_down\<close> is not invoked.
\<close>

theorem start_study_shuts_down_only_after_success:
  "(\<not> list_ex raises expt_list \<longrightarrow>
      fst (start_study raises w expt_list) = Study_returned \<and>
      runs_of (snd (start_study raises w expt_list)) = expt_list \<and>
      count_list (snd (start_study raises w expt_list)) Shutting_down = 1 \<and>
      (\<exists>before. snd (start_study raises w expt_list) =
                  before @ MainWindow_shut_down w @ [Toggle_controls False] \<and>
                runs_of before = expt_list)) \<and>
   (list_ex raises expt_list \<longrightarrow>
      fst (start_study raises w expt_list) = Study_raised \<and>
      runs_of (snd (start_study raises w expt_list)) = attempted raises expt_list \<and>
      count_list (snd (start_study raises w expt_list)) Shutting_down = 0)"
proof (rule conjI; rule impI)
  let ?st = "concat (map (\<lambda>e. [Create_dirs e, Update_eqpt_list e, Run_experiment e])
                         (attempted raises expt_list))"
  assume ok: "\<not> list_ex raises expt_list"
  then have eq: "start_study raises w expt_list =
      (Study_returned, ([Toggle_controls True, Makedirs] @ ?st)
                       @ MainWindow_shut_down w @ [Toggle_controls False])"
    by (simp add: start_study_def run_loop_closed)
  have r: "runs_of ([Toggle_controls True, Makedirs] @ ?st) = expt_list"
    using ok by (simp add: runs_of_Cons runs_of_steps attempted_no_raise)
  have r2: "runs_of [Toggle_controls False] = []" by (simp add: runs_of_Cons runs_of_Nil)
  have c: "count_list ([Toggle_controls True, Makedirs] @ ?st) Shutting_down = 0"
    by (simp add: count_steps)
  show "fst (start_study raises w expt_list) = Study_returned \<and>
      runs_of (snd (start_study raises w expt_list)) = expt_list \<and>
      count_list (snd (start_study raises w expt_list)) Shutting_down = 1 \<and>
      (\<exists>before. snd (start_study raises w expt_list) =
                  before @ MainWindow_shut_down w @ [Toggle_controls False] \<and>
                runs_of before = expt_list)"
  proof (intro conjI)
    show "fst (start_study raises w expt_list) = Study_returned" by (simp add: eq)
    show "runs_of (snd (start_study raises w expt_list)) = expt_list"
      using ok
      by (simp add: eq runs_of_Cons runs_of_Nil runs_of_append runs_of_steps
            runs_of_MainWindow_shut_down attempted_no_raise)
    show "count_list (snd (start_study raises w expt_list)) Shutting_down = 1"
      by (simp add: eq count_steps count_MainWindow_shut_down)
    show "\<exists>before. snd (start_study raises w expt_list) =
                  before @ MainWindow_shut_down w @ [Toggle_controls False] \<and>
                runs_of before = expt_list"
      using r by (intro exI [of _ "[Toggle_controls True, Makedirs] @ ?st"]) (simp add: eq)
  qed
next
  let ?st = "concat (map (\<lambda>e. [Create_dirs e, Update_eqpt_list e, Run_experiment e])
                         (attempted raises expt_list))"
  assume bad: "list_ex raises expt_list"
  then have eq: "start_study raises w expt_list =
      (Study_raised, [Toggle_controls True, Makedirs] @ ?st)"
    by (simp add: start_study_def run_loop_closed)
  have r: "runs_of ([Toggle_controls True, Makedirs] @ ?st) = attempted raises expt_list"
    by (simp add: runs_of_Cons runs_of_steps)
  have c: "count_list ([Toggle_controls True, Makedirs] @ ?st) Shutting_down = 0"
    by (simp add: count_steps)
  show "fst (start_study raises w expt_list) = Study_raised \<and>
      runs_of (snd (start_study raises w expt_list)) = attempted raises expt_list \<and>
      count_list (snd (start_study raises w expt_list)) Shutting_down = 0"
    unfolding eq fst_conv snd_conv using r c by simp
qed

theorem start_study_shuts_down_only_after_success_witness:
  "\<not> list_ex (\<lambda>e. False) [0, 1, 2 :: nat] \<and>
   fst (start_study (\<lambda>e. False) example_window [0, 1, 2]) = Study_returned \<and>
   runs_of (snd (start_study (\<lambda>e. False) example_window [0, 1, 2])) = [0, 1, 2] \<and>
   count_list (snd (start_study (\<lambda>e. False) example_window [0, 1, 2])) Shutting_down = 1 \<and>
   list_ex (\<lambda>e. e = 1) [0, 1, 2 :: nat] \<and>
   fst (start_study (\<lambda>e. e = 1) example_window [0, 1, 2]) = Study_raised \<and>
   runs_of (snd (start_study (\<lambda>e. e = 1) example_window [0, 1, 2])) = [0, 1]"
proof -
  have h1: "\<not> list_ex (\<lambda>e. False) [0, 1, 2 :: nat]" by simp
  have h2: "list_ex (\<lambda>e. e = 1) [0, 1, 2 :: nat]" by simp
  have a: "attempted (\<lambda>e. e = 1) [0, 1, 2 :: nat] = [0, 1]" by (simp add: attempted_def)
  from start_study_shuts_down_only_after_success [of "\<lambda>e. False" "[0, 1, 2]" example_window]
    start_study_shuts_down_only_after_success [of "\<lambda>e. e = 1" "[0, 1, 2]" example_window]
    h1 h2 a
  show ?thesis by simp
qed

text \<open>
  Claim C8 as stated fails: with three experiments of which the second raises, the third
  is not run and the trace of \<open>start_study\<close> holds no shutdown.
\<close>

theorem start_study_failure_skips_shut_down_counterexample:
  "start_study (\<lambda>e. e = 1) example_window [0, 1, 2] =
     (Study_raised,
      [Toggle_controls True, Makedirs, Create_dirs 0, Update_eqpt_list 0, Run_experiment 0,
       Create_dirs 1, Update_eqpt_list 1, Run_experiment 1]) \<and>
   count_list (snd (start_study (\<lambda>e. e = 1) example_window [0, 1, 2])) Shutting_down = 0"
  by code_simp

end
